theory Spec2Isabelle
  imports Main
begin

section \<open>Circuit descriptions\<close>

text \<open>
  A circuit is the dictionary \<^verbatim>\<open>{'inputs': [...], 'gates': [...], 'outputs': [...]}\<close>
  of the Python sources; a gate is \<^verbatim>\<open>{'name': ..., 'type': ..., 'inputs': [...]}\<close>.
  The gate fields carry the prefix \<open>g\<close> so that they do not clash with the circuit fields.
\<close>

record gate =
  gname :: string
  gtype :: string
  ginputs :: "string list"

record circuit =
  inputs :: "string list"
  gates :: "gate list"
  outputs :: "string list"

section \<open>Python dictionaries and exceptions\<close>

text \<open>
  A Python \<^verbatim>\<open>dict\<close> keeps its keys in insertion order, and assigning to a key that is
  already present keeps the key's position. It is an association list here, because the
  equivalence checker pairs the outputs of two circuits by the order of the keys.
\<close>

type_synonym ('k, 'v) dict = "('k \<times> 'v) list"

fun dict_set :: "('k, 'v) dict \<Rightarrow> 'k \<Rightarrow> 'v \<Rightarrow> ('k, 'v) dict" where
  "dict_set [] k v = [(k, v)]"
| "dict_set ((k', v') # d) k v =
     (if k' = k then (k', v) # d else (k', v') # dict_set d k v)"

definition keys :: "('k, 'v) dict \<Rightarrow> 'k list" where
  "keys d = map fst d"

text \<open>
  The \<^verbatim>\<open>ValueError\<close>s that the two \<^verbatim>\<open>build_z3_expr\<close> raise, one constructor for each
  message of the source.
\<close>

datatype error =
    DuplicateGateName string
  | SignalNotDefined string string
  | NotGateArity string
  | XorGateArity string
  | XnorGateArity string
  | UnsupportedGateType string
  | OutputNotDefined string

text \<open>
  What can leave a top-level function other than a returned value: \<^verbatim>\<open>sys.exit(n)\<close>
  raises \<^verbatim>\<open>SystemExit\<close>, and \<^verbatim>\<open>d[k]\<close> on a missing key raises \<^verbatim>\<open>KeyError\<close>.
\<close>

datatype exn = SystemExit nat | KeyError string

definition getitem :: "(string, 'v) dict \<Rightarrow> string \<Rightarrow> exn + 'v" where
  "getitem d k = (case map_of d k of None \<Rightarrow> Inl (KeyError k) | Some v \<Rightarrow> Inr v)"

section \<open>Formulas and the satisfiability oracle\<close>

text \<open>
  The formulas the sources build with z3: \<^verbatim>\<open>Bool(name)\<close>, \<^verbatim>\<open>And([...])\<close>, \<^verbatim>\<open>Or([...])\<close>,
  \<^verbatim>\<open>Not(e)\<close>, \<^verbatim>\<open>e1 ^ e2\<close>, \<^verbatim>\<open>e1 == e2\<close> and \<^verbatim>\<open>e1 != e2\<close>. Two \<^verbatim>\<open>Bool\<close> of one name
  are the same variable. A model with completion gives every variable a truth value, so
  it is a total function, and \<open>evaluate\<close> is
  \<^verbatim>\<open>is_true(model.evaluate(e, model_completion=True))\<close>. The empty conjunction is true
  and the empty disjunction is false.
\<close>

datatype z3expr =
    Z3Bool string
  | Z3And "z3expr list"
  | Z3Or "z3expr list"
  | Z3Not z3expr
  | Z3Xor z3expr z3expr
  | Z3Eq z3expr z3expr
  | Z3Ne z3expr z3expr

fun evaluate :: "(string \<Rightarrow> bool) \<Rightarrow> z3expr \<Rightarrow> bool" where
  "evaluate m (Z3Bool x) = m x"
| "evaluate m (Z3And es) = list_all (evaluate m) es"
| "evaluate m (Z3Or es) = list_ex (evaluate m) es"
| "evaluate m (Z3Not e) = (\<not> evaluate m e)"
| "evaluate m (Z3Xor a b) = (evaluate m a \<noteq> evaluate m b)"
| "evaluate m (Z3Eq a b) = (evaluate m a = evaluate m b)"
| "evaluate m (Z3Ne a b) = (evaluate m a \<noteq> evaluate m b)"

text \<open>
  The solver is outside the repository. A solver session is the list of the asserted
  formulas; \<^verbatim>\<open>solver.check()\<close> answers \<^verbatim>\<open>sat\<close> (with the model that \<^verbatim>\<open>solver.model()\<close>
  then returns), \<^verbatim>\<open>unsat\<close> or \<^verbatim>\<open>unknown\<close>. The functions below take it as a parameter.
  It is sound when every model it returns satisfies the asserted formulas, and complete
  when it answers \<^verbatim>\<open>sat\<close> whenever some model satisfies them.
\<close>

datatype check_result = Sat "string \<Rightarrow> bool" | Unsat | Unknown

type_synonym solver = "z3expr list \<Rightarrow> check_result"

definition satisfies :: "(string \<Rightarrow> bool) \<Rightarrow> z3expr list \<Rightarrow> bool" where
  "satisfies m fs = list_all (evaluate m) fs"

definition solver_sound :: "solver \<Rightarrow> bool" where
  "solver_sound check = (\<forall>fs m. check fs = Sat m \<longrightarrow> satisfies m fs)"

definition solver_complete :: "solver \<Rightarrow> bool" where
  "solver_complete check = (\<forall>fs m. satisfies m fs \<longrightarrow> (\<exists>m'. check fs = Sat m'))"

text \<open>
  A reference solver that decides by enumeration, to run the functions on concrete
  circuits: it tries every assignment to the variables of the asserted formulas, the
  all-false one first, and completes the model with false.
\<close>

fun vars_of :: "z3expr \<Rightarrow> string list" where
  "vars_of (Z3Bool x) = [x]"
| "vars_of (Z3And es) = concat (map vars_of es)"
| "vars_of (Z3Or es) = concat (map vars_of es)"
| "vars_of (Z3Not e) = vars_of e"
| "vars_of (Z3Xor a b) = vars_of a @ vars_of b"
| "vars_of (Z3Eq a b) = vars_of a @ vars_of b"
| "vars_of (Z3Ne a b) = vars_of a @ vars_of b"

fun assignments :: "string list \<Rightarrow> string list list" where
  "assignments [] = [[]]"
| "assignments (x # xs) = assignments xs @ map ((#) x) (assignments xs)"

definition model_of :: "string list \<Rightarrow> string \<Rightarrow> bool" where
  "model_of ts x = (x \<in> set ts)"

definition enum_solver :: solver where
  "enum_solver fs =
     (case List.find (\<lambda>ts. satisfies (model_of ts) fs)
             (assignments (remdups (concat (map vars_of fs)))) of
        None \<Rightarrow> Unsat
      | Some ts \<Rightarrow> Sat (model_of ts))"

section \<open>Compiling gates\<close>

text \<open>
  \<^verbatim>\<open>gate['type'].upper()\<close>, on ASCII strings: the twenty-six small letters become
  capital letters and every other character stays.
\<close>

definition upper_char :: "char \<Rightarrow> char" where
  "upper_char c =
     (case map_of (zip ''abcdefghijklmnopqrstuvwxyz'' ''ABCDEFGHIJKLMNOPQRSTUVWXYZ'') c of
        None \<Rightarrow> c
      | Some u \<Rightarrow> u)"

definition upper :: "string \<Rightarrow> string" where
  "upper s = map upper_char s"

text \<open>
  The loop \<^verbatim>\<open>for sig in gate_inputs: if sig not in expr_map: raise ...\<close> (lines 43 to
  45 of circuit\_equivalence.py, 45 to 47 of circuit-evaluator.py) together with the
  comprehension \<^verbatim>\<open>[expr_map[sig] for sig in gate_inputs]\<close> of the branches that follow
  it: the first signal that is not defined, or the expressions of all of them.
\<close>

fun lookup_signals :: "(string, z3expr) dict \<Rightarrow> string list \<Rightarrow> string + z3expr list" where
  "lookup_signals expr_map [] = Inr []"
| "lookup_signals expr_map (sig # sigs) =
     (case map_of expr_map sig of
        None \<Rightarrow> Inl sig
      | Some e \<Rightarrow>
          (case lookup_signals expr_map sigs of
             Inl s \<Rightarrow> Inl s
           | Inr es \<Rightarrow> Inr (e # es)))"

text \<open>
  The \<^verbatim>\<open>if gate_type == 'AND': ... elif ...\<close> chain, which both sources share (lines
  48 to 69 of circuit\_equivalence.py; in lines 55 to 76 of circuit-evaluator.py the
  same expression is the right-hand side of the constraint): the arguments are the
  expressions of the gate's inputs, in order. \<^verbatim>\<open>len(gate_inputs) != 1\<close> is the case of a
  list that is not a singleton, \<^verbatim>\<open>len(gate_inputs) != 2\<close> of one that is not a pair.
\<close>

definition gate_expr :: "string \<Rightarrow> string \<Rightarrow> z3expr list \<Rightarrow> error + z3expr" where
  "gate_expr gate_name gate_type args =
     (if gate_type = ''AND'' then Inr (Z3And args)
      else if gate_type = ''OR'' then Inr (Z3Or args)
      else if gate_type = ''NOT'' then
        (case args of [a] \<Rightarrow> Inr (Z3Not a) | _ \<Rightarrow> Inl (NotGateArity gate_name))
      else if gate_type = ''NAND'' then Inr (Z3Not (Z3And args))
      else if gate_type = ''NOR'' then Inr (Z3Not (Z3Or args))
      else if gate_type = ''XOR'' then
        (case args of [a, b] \<Rightarrow> Inr (Z3Xor a b) | _ \<Rightarrow> Inl (XorGateArity gate_name))
      else if gate_type = ''XNOR'' then
        (case args of [a, b] \<Rightarrow> Inr (Z3Not (Z3Xor a b)) | _ \<Rightarrow> Inl (XnorGateArity gate_name))
      else Inl (UnsupportedGateType gate_type))"

text \<open>
  The loop over \<^verbatim>\<open>circuit['inputs']\<close>, the same in both sources (lines 23 to 28 of
  circuit\_equivalence.py, 26 to 30 of circuit-evaluator.py). The set \<^verbatim>\<open>variables\<close> of
  the equivalence checker is local to \<^verbatim>\<open>check_circuit_equivalence\<close>, only written and
  never read; it is left out, as are the printed lines.
\<close>

fun init_inputs ::
  "string list \<Rightarrow> (string, z3expr) dict \<Rightarrow> (string, z3expr) dict \<Rightarrow>
   (string, z3expr) dict \<times> (string, z3expr) dict" where
  "init_inputs [] z3_vars expr_map = (z3_vars, expr_map)"
| "init_inputs (inp # inps) z3_vars expr_map =
     (case map_of z3_vars inp of
        None \<Rightarrow>
          init_inputs inps (dict_set z3_vars inp (Z3Bool inp)) (dict_set expr_map inp (Z3Bool inp))
      | Some v \<Rightarrow> init_inputs inps z3_vars (dict_set expr_map inp v))"

text \<open>
  The loop over \<^verbatim>\<open>circuit['outputs']\<close>, the same in both sources (lines 76 to 85 of
  circuit\_equivalence.py, 84 to 93 of circuit-evaluator.py): \<^verbatim>\<open>output_expr\<close> is a
  dictionary keyed by the output names.
\<close>

fun map_outputs ::
  "string list \<Rightarrow> (string, z3expr) dict \<Rightarrow> (string, z3expr) dict \<Rightarrow>
   error + (string, z3expr) dict" where
  "map_outputs [] expr_map output_expr = Inr output_expr"
| "map_outputs (out # outs) expr_map output_expr =
     (case map_of expr_map out of
        Some e \<Rightarrow> map_outputs outs expr_map (dict_set output_expr out e)
      | None \<Rightarrow> Inl (OutputNotDefined out))"

section \<open>The equivalence checker (circuit\_equivalence.py)\<close>

text \<open>
  The gate loop of \<^verbatim>\<open>build_z3_expr\<close> (lines 31 to 73): a gate's signal is the composed
  expression, stored in \<^verbatim>\<open>expr_map\<close> under the gate's name, whether or not an input has
  that name.
\<close>

fun ce_process_gates ::
  "gate list \<Rightarrow> string set \<Rightarrow> (string, z3expr) dict \<Rightarrow> error + (string, z3expr) dict" where
  "ce_process_gates [] gate_names expr_map = Inr expr_map"
| "ce_process_gates (g # gs) gate_names expr_map =
     (if gname g \<in> gate_names then Inl (DuplicateGateName (gname g))
      else
        (case lookup_signals expr_map (ginputs g) of
           Inl sig \<Rightarrow> Inl (SignalNotDefined sig (gname g))
         | Inr args \<Rightarrow>
             (case gate_expr (gname g) (upper (gtype g)) args of
                Inl e \<Rightarrow> Inl e
              | Inr expr \<Rightarrow>
                  ce_process_gates gs (insert (gname g) gate_names)
                    (dict_set expr_map (gname g) expr))))"

text \<open>
  \<^verbatim>\<open>build_z3_expr(circuit, variables, z3_vars, prefix)\<close>: the result is the raised
  \<^verbatim>\<open>ValueError\<close>, or \<^verbatim>\<open>output_expr\<close> with the updated \<^verbatim>\<open>z3_vars\<close>. The prefix is used
  in a printed line only.
\<close>

definition ce_build_z3_expr ::
  "circuit \<Rightarrow> (string, z3expr) dict \<Rightarrow>
   error + ((string, z3expr) dict \<times> (string, z3expr) dict)" where
  "ce_build_z3_expr c z3_vars =
     (case init_inputs (inputs c) z3_vars [] of
        (z3_vars', expr_map0) \<Rightarrow>
          (case ce_process_gates (gates c) {} expr_map0 of
             Inl e \<Rightarrow> Inl e
           | Inr expr_map \<Rightarrow>
               (case map_outputs (outputs c) expr_map [] of
                  Inl e \<Rightarrow> Inl e
                | Inr output_expr \<Rightarrow> Inr (output_expr, z3_vars'))))"

text \<open>
  The pieces of \<^verbatim>\<open>check_circuit_equivalence\<close>: the pairs of output names (line 120), the
  loop that builds the difference constraints (lines 126 to 128), the loop that reads the
  input assignment from the model (lines 137 to 140) and the loop that collects the
  differing outputs (lines 143 to 148).
\<close>

definition output_pairs ::
  "(string, z3expr) dict \<Rightarrow> (string, z3expr) dict \<Rightarrow> (string \<times> string) list" where
  "output_pairs outputs1 outputs2 = zip (keys outputs1) (keys outputs2)"

fun diff_constraints ::
  "(string, z3expr) dict \<Rightarrow> (string, z3expr) dict \<Rightarrow> (string \<times> string) list \<Rightarrow>
   exn + z3expr list" where
  "diff_constraints outputs1 outputs2 [] = Inr []"
| "diff_constraints outputs1 outputs2 ((out1, out2) # ps) =
     (case getitem outputs1 out1 of
        Inl x \<Rightarrow> Inl x
      | Inr e1 \<Rightarrow>
          (case getitem outputs2 out2 of
             Inl x \<Rightarrow> Inl x
           | Inr e2 \<Rightarrow>
               (case diff_constraints outputs1 outputs2 ps of
                  Inl x \<Rightarrow> Inl x
                | Inr cs \<Rightarrow> Inr (Z3Ne e1 e2 # cs))))"

fun input_assignment ::
  "(string \<Rightarrow> bool) \<Rightarrow> (string, z3expr) dict \<Rightarrow> string list \<Rightarrow> (string, bool) dict \<Rightarrow>
   (string, bool) dict" where
  "input_assignment model z3_vars [] acc = acc"
| "input_assignment model z3_vars (var # vars) acc =
     (case map_of z3_vars var of
        None \<Rightarrow> input_assignment model z3_vars vars acc
      | Some v \<Rightarrow> input_assignment model z3_vars vars (dict_set acc var (evaluate model v)))"

fun differing_outputs ::
  "(string \<Rightarrow> bool) \<Rightarrow> (string, z3expr) dict \<Rightarrow> (string, z3expr) dict \<Rightarrow>
   (string \<times> string) list \<Rightarrow> exn + (string \<times> string \<times> bool \<times> bool) list" where
  "differing_outputs model outputs1 outputs2 [] = Inr []"
| "differing_outputs model outputs1 outputs2 ((out1, out2) # ps) =
     (case getitem outputs1 out1 of
        Inl x \<Rightarrow> Inl x
      | Inr e1 \<Rightarrow>
          (case getitem outputs2 out2 of
             Inl x \<Rightarrow> Inl x
           | Inr e2 \<Rightarrow>
               (case differing_outputs model outputs1 outputs2 ps of
                  Inl x \<Rightarrow> Inl x
                | Inr ds \<Rightarrow>
                    Inr (if evaluate model e1 \<noteq> evaluate model e2
                         then (out1, out2, evaluate model e1, evaluate model e2) # ds
                         else ds))))"

type_synonym counterexample = "(string, bool) dict \<times> (string \<times> string \<times> bool \<times> bool) list"

text \<open>
  \<^verbatim>\<open>check_circuit_equivalence(circuit1, circuit2)\<close>. The first component is what the
  call does: it raises, or returns \<^verbatim>\<open>(is_equiv, None)\<close> or
  \<^verbatim>\<open>(False, (input_assignment, differing_outputs))\<close>. The second component is the log of
  the solver queries of the call: the formulas asserted at each \<^verbatim>\<open>solver.check()\<close>.
  A \<^verbatim>\<open>ValueError\<close> of either compilation is caught and answered with \<^verbatim>\<open>sys.exit(1)\<close>
  (lines 106 to 112); the second compilation works on the \<^verbatim>\<open>z3_vars\<close> that the first
  one filled. Any answer of the solver other than \<^verbatim>\<open>sat\<close> takes the \<^verbatim>\<open>else\<close> branch.
\<close>

definition check_circuit_equivalence ::
  "solver \<Rightarrow> circuit \<Rightarrow> circuit \<Rightarrow>
   (exn + bool \<times> counterexample option) \<times> z3expr list list" where
  "check_circuit_equivalence check circuit1 circuit2 =
     (case ce_build_z3_expr circuit1 [] of
        Inl e \<Rightarrow> (Inl (SystemExit 1), [])
      | Inr (outputs1, z3_vars1) \<Rightarrow>
          (case ce_build_z3_expr circuit2 z3_vars1 of
             Inl e \<Rightarrow> (Inl (SystemExit 1), [])
           | Inr (outputs2, z3_vars) \<Rightarrow>
               if length outputs1 \<noteq> length outputs2 then (Inr (False, None), [])
               else
                 (case diff_constraints outputs1 outputs2 (output_pairs outputs1 outputs2) of
                    Inl x \<Rightarrow> (Inl x, [])
                  | Inr cs \<Rightarrow>
                      (case check [Z3Or cs] of
                         Sat model \<Rightarrow>
                           (case differing_outputs model outputs1 outputs2
                                   (output_pairs outputs1 outputs2) of
                              Inl x \<Rightarrow> (Inl x, [[Z3Or cs]])
                            | Inr ds \<Rightarrow>
                                (Inr (False,
                                   Some (input_assignment model z3_vars (inputs circuit1) [], ds)),
                                 [[Z3Or cs]]))
                       | _ \<Rightarrow> (Inr (True, None), [[Z3Or cs]])))))"

section \<open>The single-circuit validator (circuit-evaluator.py)\<close>

text \<open>
  The gate loop of the validator's \<^verbatim>\<open>build_z3_expr\<close>: a gate's signal is a variable of
  its own, and the gate's function is a constraint on it. An arity or type error is
  raised after \<^verbatim>\<open>z3_vars\<close> has been written, which the caller never sees.
\<close>

fun cv_process_gates ::
  "gate list \<Rightarrow> string set \<Rightarrow> (string, z3expr) dict \<Rightarrow> (string, z3expr) dict \<Rightarrow>
   z3expr list \<Rightarrow> error + ((string, z3expr) dict \<times> (string, z3expr) dict \<times> z3expr list)" where
  "cv_process_gates [] gate_names z3_vars expr_map constraints =
     Inr (z3_vars, expr_map, constraints)"
| "cv_process_gates (g # gs) gate_names z3_vars expr_map constraints =
     (if gname g \<in> gate_names then Inl (DuplicateGateName (gname g))
      else
        (case lookup_signals expr_map (ginputs g) of
           Inl sig \<Rightarrow> Inl (SignalNotDefined sig (gname g))
         | Inr args \<Rightarrow>
             (case (case map_of z3_vars (gname g) of
                      None \<Rightarrow> (dict_set z3_vars (gname g) (Z3Bool (gname g)), Z3Bool (gname g))
                    | Some v \<Rightarrow> (z3_vars, v)) of
                (z3_vars', gate_output) \<Rightarrow>
                  (case gate_expr (gname g) (upper (gtype g)) args of
                     Inl e \<Rightarrow> Inl e
                   | Inr expr \<Rightarrow>
                       cv_process_gates gs (insert (gname g) gate_names) z3_vars'
                         (dict_set expr_map (gname g) gate_output)
                         (constraints @ [Z3Eq gate_output expr])))))"

text \<open>
  \<^verbatim>\<open>build_z3_expr(circuit, z3_vars)\<close> of the validator: the raised \<^verbatim>\<open>ValueError\<close>, or
  \<^verbatim>\<open>(output_expr, constraints)\<close> with the updated \<^verbatim>\<open>z3_vars\<close>.
\<close>

definition cv_build_z3_expr ::
  "circuit \<Rightarrow> (string, z3expr) dict \<Rightarrow>
   error + ((string, z3expr) dict \<times> z3expr list \<times> (string, z3expr) dict)" where
  "cv_build_z3_expr c z3_vars =
     (case init_inputs (inputs c) z3_vars [] of
        (z3_vars0, expr_map0) \<Rightarrow>
          (case cv_process_gates (gates c) {} z3_vars0 expr_map0 [] of
             Inl e \<Rightarrow> Inl e
           | Inr (z3_vars', expr_map, constraints) \<Rightarrow>
               (case map_outputs (outputs c) expr_map [] of
                  Inl e \<Rightarrow> Inl e
                | Inr output_expr \<Rightarrow> Inr (output_expr, constraints, z3_vars'))))"

text \<open>
  The second component of the pair that \<^verbatim>\<open>validate_circuit\<close> returns: the output values,
  or a message. \<open>StructuralMsg e\<close> is \<^verbatim>\<open>str(e)\<close> of the \<^verbatim>\<open>ValueError\<close> \<open>e\<close>.
\<close>

datatype message =
    StructuralMsg error
  | InputNotDefinedMsg string
  | SignalNotDefinedMsg string
  | ContradictionMsg

datatype payload = OutputValues "(string, bool) dict" | Msg message

text \<open>A loop with an early \<^verbatim>\<open>return\<close>: it raises, returns from the function, or goes on.\<close>

datatype ('r, 'a) flow = Raise exn | Return 'r | Next 'a

fun apply_input_assignments ::
  "circuit \<Rightarrow> (string, z3expr) dict \<Rightarrow> (string, bool) dict \<Rightarrow>
   (bool \<times> payload, z3expr list) flow" where
  "apply_input_assignments c z3_vars [] = Next []"
| "apply_input_assignments c z3_vars ((inp, val) # rest) =
     (if inp \<notin> set (inputs c) then Return (False, Msg (InputNotDefinedMsg inp))
      else
        (case getitem z3_vars inp of
           Inl x \<Rightarrow> Raise x
         | Inr v \<Rightarrow>
             (case apply_input_assignments c z3_vars rest of
                Next cs \<Rightarrow> Next ((if val then v else Z3Not v) # cs)
              | Return r \<Rightarrow> Return r
              | Raise x \<Rightarrow> Raise x)))"

fun apply_signal_assignments ::
  "(string, z3expr) dict \<Rightarrow> (string, bool) dict \<Rightarrow> (bool \<times> payload, z3expr list) flow" where
  "apply_signal_assignments z3_vars [] = Next []"
| "apply_signal_assignments z3_vars ((sig, val) # rest) =
     (case map_of z3_vars sig of
        None \<Rightarrow> Return (False, Msg (SignalNotDefinedMsg sig))
      | Some v \<Rightarrow>
          (case apply_signal_assignments z3_vars rest of
             Next cs \<Rightarrow> Next ((if val then v else Z3Not v) # cs)
           | Return r \<Rightarrow> Return r
           | Raise x \<Rightarrow> Raise x))"

fun output_values ::
  "(string \<Rightarrow> bool) \<Rightarrow> (string, z3expr) dict \<Rightarrow> string list \<Rightarrow> (string, bool) dict \<Rightarrow>
   exn + (string, bool) dict" where
  "output_values model outs [] acc = Inr acc"
| "output_values model outs (out # rest) acc =
     (case getitem outs out of
        Inl x \<Rightarrow> Inl x
      | Inr e \<Rightarrow> output_values model outs rest (dict_set acc out (evaluate model e)))"

text \<open>
  \<^verbatim>\<open>validate_circuit(circuit, input_assignments, signal_assignments=None)\<close>. A
  \<^verbatim>\<open>ValueError\<close> of the compilation is caught and returned as \<^verbatim>\<open>(False, str(e))\<close> (lines
  108 to 112). The assertions reach the solver in the order of the source: the gate
  constraints, the input assignments, the signal assignments.
  \<^verbatim>\<open>if signal_assignments:\<close> skips both \<^verbatim>\<open>None\<close> and the empty dictionary. Any answer
  of the solver other than \<^verbatim>\<open>sat\<close> is reported as a contradiction.
\<close>

definition validate_circuit ::
  "solver \<Rightarrow> circuit \<Rightarrow> (string, bool) dict \<Rightarrow> (string, bool) dict option \<Rightarrow>
   exn + bool \<times> payload" where
  "validate_circuit check c input_assignments signal_assignments =
     (case cv_build_z3_expr c [] of
        Inl e \<Rightarrow> Inr (False, Msg (StructuralMsg e))
      | Inr (outs, constraints, z3_vars) \<Rightarrow>
          (case apply_input_assignments c z3_vars input_assignments of
             Raise x \<Rightarrow> Inl x
           | Return r \<Rightarrow> Inr r
           | Next ics \<Rightarrow>
               (case (case signal_assignments of
                        None \<Rightarrow> Next []
                      | Some sa \<Rightarrow> apply_signal_assignments z3_vars sa) of
                  Raise x \<Rightarrow> Inl x
                | Return r \<Rightarrow> Inr r
                | Next scs \<Rightarrow>
                    (case check (constraints @ ics @ scs) of
                       Sat model \<Rightarrow>
                         (case output_values model outs (outputs c) [] of
                            Inl x \<Rightarrow> Inl x
                          | Inr ov \<Rightarrow> Inr (True, OutputValues ov))
                     | _ \<Rightarrow> Inr (False, Msg ContradictionMsg)))))"

section \<open>Reference semantics of a circuit\<close>

text \<open>
  What a circuit computes, written from the specification and not from the compiler: the
  boolean function of each gate type (AND is conjunction, OR is disjunction, NOT negates
  its sole input, NAND and NOR negate AND and OR, XOR is the exclusive or of its two
  inputs, XNOR its negation; the type is case-insensitive), and the gates evaluated in
  sequence order, each one reading the signals defined before it. The environment gives
  the values of the primary inputs. The compiled formulas are compared with this.
\<close>

definition spec_gate_value :: "string \<Rightarrow> bool list \<Rightarrow> bool" where
  "spec_gate_value gate_type vs =
     (if gate_type = ''AND'' then list_all id vs
      else if gate_type = ''OR'' then list_ex id vs
      else if gate_type = ''NOT'' then (case vs of [v] \<Rightarrow> \<not> v | _ \<Rightarrow> False)
      else if gate_type = ''NAND'' then \<not> list_all id vs
      else if gate_type = ''NOR'' then \<not> list_ex id vs
      else if gate_type = ''XOR'' then (case vs of [a, b] \<Rightarrow> a \<noteq> b | _ \<Rightarrow> False)
      else if gate_type = ''XNOR'' then (case vs of [a, b] \<Rightarrow> a = b | _ \<Rightarrow> False)
      else False)"

fun spec_simulate :: "gate list \<Rightarrow> (string \<Rightarrow> bool) \<Rightarrow> string \<Rightarrow> bool" where
  "spec_simulate [] env = env"
| "spec_simulate (g # gs) env =
     spec_simulate gs (env(gname g := spec_gate_value (upper (gtype g)) (map env (ginputs g))))"

text \<open>The truth values of the outputs, in the order of the \<open>outputs\<close> list.\<close>

definition spec_outputs :: "circuit \<Rightarrow> (string \<Rightarrow> bool) \<Rightarrow> bool list" where
  "spec_outputs c env = map (spec_simulate (gates c) env) (outputs c)"

section \<open>Notions used in the statements\<close>

text \<open>A circuit is structurally valid when the compiler accepts it.\<close>

definition structurally_valid :: "circuit \<Rightarrow> bool" where
  "structurally_valid c = (case ce_build_z3_expr c [] of Inl e \<Rightarrow> False | Inr r \<Rightarrow> True)"

text \<open>
  The same, as a condition on the circuit alone: the gate names are pairwise distinct,
  every input of a gate is a primary input or an earlier gate, every gate has a supported
  type and the number of inputs its type requires, and every output is a primary input
  or a gate. The set of gate names and the set of defined signals are kept apart, as the
  compilers keep \<^verbatim>\<open>gate_names\<close> and \<^verbatim>\<open>expr_map\<close> apart.
\<close>

definition type_arity_ok :: "string \<Rightarrow> nat \<Rightarrow> bool" where
  "type_arity_ok gate_type n =
     (gate_type = ''AND'' \<or> gate_type = ''OR'' \<or> gate_type = ''NAND'' \<or> gate_type = ''NOR'' \<or>
      (gate_type = ''NOT'' \<and> n = 1) \<or> (gate_type = ''XOR'' \<and> n = 2) \<or>
      (gate_type = ''XNOR'' \<and> n = 2))"

fun gates_ok :: "gate list \<Rightarrow> string set \<Rightarrow> string set \<Rightarrow> bool" where
  "gates_ok [] gate_names defined = True"
| "gates_ok (g # gs) gate_names defined =
     (gname g \<notin> gate_names \<and> set (ginputs g) \<subseteq> defined \<and>
      type_arity_ok (upper (gtype g)) (length (ginputs g)) \<and>
      gates_ok gs (insert (gname g) gate_names) (insert (gname g) defined))"

definition well_formed :: "circuit \<Rightarrow> bool" where
  "well_formed c =
     (gates_ok (gates c) {} (set (inputs c)) \<and>
      set (outputs c) \<subseteq> set (inputs c) \<union> gname ` set (gates c))"

text \<open>The names of a list in the order of their first occurrences: the keys of a
  dictionary that was filled from the list.\<close>

fun first_occurrences :: "'a list \<Rightarrow> 'a list" where
  "first_occurrences [] = []"
| "first_occurrences (x # xs) = x # filter (\<lambda>y. y \<noteq> x) (first_occurrences xs)"

text \<open>Every entry of \<^verbatim>\<open>z3_vars\<close> is the variable of its own name: the invariant of the
  variable pool.\<close>

definition bool_vars :: "(string, z3expr) dict \<Rightarrow> bool" where
  "bool_vars z3_vars = (\<forall>k v. map_of z3_vars k = Some v \<longrightarrow> v = Z3Bool k)"

text \<open>The miter formula of two compiled output dictionaries, and the differing pairs
  under a model, both over the dictionaries' items paired by position.\<close>

definition miter :: "(string, z3expr) dict \<Rightarrow> (string, z3expr) dict \<Rightarrow> z3expr" where
  "miter o1 o2 = Z3Or (map (\<lambda>(x, y). Z3Ne (snd x) (snd y)) (zip o1 o2))"

definition differing :: "(string \<Rightarrow> bool) \<Rightarrow> (string, z3expr) dict \<Rightarrow> (string, z3expr) dict \<Rightarrow>
    (string \<times> string \<times> bool \<times> bool) list" where
  "differing m o1 o2 =
     map (\<lambda>(x, y). (fst x, fst y, evaluate m (snd x), evaluate m (snd y)))
       (filter (\<lambda>(x, y). evaluate m (snd x) \<noteq> evaluate m (snd y)) (zip o1 o2))"

text \<open>
  An assignment as the constraints that \<^verbatim>\<open>validate_circuit\<close> asserts for it, what it
  means for a model to agree with it, and the signal assignments of a call, where
  \<^verbatim>\<open>None\<close> assigns nothing.
\<close>

definition literals :: "(string, bool) dict \<Rightarrow> z3expr list" where
  "literals asg = map (\<lambda>(k, v). if v then Z3Bool k else Z3Not (Z3Bool k)) asg"

definition agrees :: "(string \<Rightarrow> bool) \<Rightarrow> (string, bool) dict \<Rightarrow> bool" where
  "agrees m asg = list_all (\<lambda>(k, v). m k = v) asg"

definition dict_or_empty :: "(string, bool) dict option \<Rightarrow> (string, bool) dict" where
  "dict_or_empty signal_assignments = (case signal_assignments of None \<Rightarrow> [] | Some sa \<Rightarrow> sa)"

section \<open>Example circuits\<close>

text \<open>The circuits of the demonstration entry points and of the test suite, and small
  circuits that repeat an output name, repeat a gate name, or name a gate like an input.\<close>

definition and_or_circuit :: circuit where
  "and_or_circuit =
     \<lparr>inputs = [''A'', ''B'', ''C''],
      gates = [\<lparr>gname = ''D'', gtype = ''AND'', ginputs = [''A'', ''B'']\<rparr>,
               \<lparr>gname = ''E'', gtype = ''OR'', ginputs = [''D'', ''C'']\<rparr>],
      outputs = [''E'']\<rparr>"

definition or_and_circuit :: circuit where
  "or_and_circuit =
     \<lparr>inputs = [''A'', ''B'', ''C''],
      gates = [\<lparr>gname = ''F'', gtype = ''OR'', ginputs = [''A'', ''C'']\<rparr>,
               \<lparr>gname = ''G'', gtype = ''OR'', ginputs = [''B'', ''C'']\<rparr>,
               \<lparr>gname = ''E'', gtype = ''AND'', ginputs = [''F'', ''G'']\<rparr>],
      outputs = [''E'']\<rparr>"

definition one_output_circuit :: circuit where
  "one_output_circuit =
     \<lparr>inputs = [''A'', ''B''],
      gates = [\<lparr>gname = ''C'', gtype = ''AND'', ginputs = [''A'', ''B'']\<rparr>],
      outputs = [''C'']\<rparr>"

definition two_outputs_circuit :: circuit where
  "two_outputs_circuit =
     \<lparr>inputs = [''A'', ''B''],
      gates = [\<lparr>gname = ''C'', gtype = ''AND'', ginputs = [''A'', ''B'']\<rparr>,
               \<lparr>gname = ''D'', gtype = ''OR'', ginputs = [''A'', ''B'']\<rparr>],
      outputs = [''C'', ''D'']\<rparr>"

definition two_ands_circuit :: circuit where
  "two_ands_circuit =
     \<lparr>inputs = [''A'', ''B''],
      gates = [\<lparr>gname = ''C'', gtype = ''AND'', ginputs = [''A'', ''B'']\<rparr>,
               \<lparr>gname = ''D'', gtype = ''AND'', ginputs = [''A'', ''B'']\<rparr>],
      outputs = [''C'', ''D'']\<rparr>"

definition xor_circuit :: circuit where
  "xor_circuit =
     \<lparr>inputs = [''a'', ''b''],
      gates = [\<lparr>gname = ''g'', gtype = ''XOR'', ginputs = [''a'', ''b'']\<rparr>],
      outputs = [''g'']\<rparr>"

definition not_circuit :: circuit where
  "not_circuit =
     \<lparr>inputs = [''A'', ''B''],
      gates = [\<lparr>gname = ''E1'', gtype = ''AND'', ginputs = [''A'', ''B'']\<rparr>,
               \<lparr>gname = ''E2'', gtype = ''NOT'', ginputs = [''A'']\<rparr>,
               \<lparr>gname = ''E'', gtype = ''AND'', ginputs = [''E1'', ''E2'']\<rparr>],
      outputs = [''E'']\<rparr>"

definition wires_circuit :: circuit where
  "wires_circuit = \<lparr>inputs = [''A'', ''B''], gates = [], outputs = [''B'', ''A'', ''B'']\<rparr>"

definition outputs_a :: circuit where
  "outputs_a = \<lparr>inputs = [''a''], gates = [], outputs = [''a'']\<rparr>"

definition outputs_aa :: circuit where
  "outputs_aa = \<lparr>inputs = [''a''], gates = [], outputs = [''a'', ''a'']\<rparr>"

definition outputs_aba :: circuit where
  "outputs_aba = \<lparr>inputs = [''a'', ''b''], gates = [], outputs = [''a'', ''b'', ''a'']\<rparr>"

definition outputs_abb :: circuit where
  "outputs_abb = \<lparr>inputs = [''a'', ''b''], gates = [], outputs = [''a'', ''b'', ''b'']\<rparr>"

definition outputs_aqq :: circuit where
  "outputs_aqq =
     \<lparr>inputs = [''a''],
      gates = [\<lparr>gname = ''q'', gtype = ''AND'', ginputs = [''a'']\<rparr>],
      outputs = [''a'', ''q'', ''q'']\<rparr>"

definition outputs_nsn :: circuit where
  "outputs_nsn =
     \<lparr>inputs = [''a''],
      gates = [\<lparr>gname = ''n'', gtype = ''NOT'', ginputs = [''a'']\<rparr>,
               \<lparr>gname = ''s'', gtype = ''AND'', ginputs = [''a'']\<rparr>],
      outputs = [''n'', ''s'', ''n'']\<rparr>"

definition duplicate_gate_circuit :: circuit where
  "duplicate_gate_circuit =
     \<lparr>inputs = [''A'', ''B''],
      gates = [\<lparr>gname = ''C'', gtype = ''AND'', ginputs = [''A'', ''B'']\<rparr>,
               \<lparr>gname = ''C'', gtype = ''OR'', ginputs = [''A'', ''B'']\<rparr>],
      outputs = [''C'']\<rparr>"

definition shadow_circuit :: circuit where
  "shadow_circuit =
     \<lparr>inputs = [''A''],
      gates = [\<lparr>gname = ''A'', gtype = ''NOT'', ginputs = [''A'']\<rparr>],
      outputs = [''A'']\<rparr>"

section \<open>Dictionaries\<close>

lemma map_of_dict_set: "map_of (dict_set d k v) = (map_of d)(k \<mapsto> v)"
  by (induction d) (auto simp: fun_eq_iff)

lemma keys_dict_set:
  "keys (dict_set d k v) = (if k \<in> set (keys d) then keys d else keys d @ [k])"
  by (induction d) (force simp: keys_def)+

lemma distinct_keys_dict_set: "distinct (keys d) \<Longrightarrow> distinct (keys (dict_set d k v))"
  by (simp add: keys_dict_set)

lemma getitem_member:
  "distinct (keys d) \<Longrightarrow> x \<in> set d \<Longrightarrow> getitem d (fst x) = Inr (snd x)"
  by (cases x) (simp add: getitem_def keys_def)

lemma set_first_occurrences: "set (first_occurrences xs) = set xs"
  by (induction xs) auto

lemma distinct_first_occurrences: "distinct (first_occurrences xs)"
  by (induction xs) auto

lemma first_occurrences_distinct: "distinct xs \<Longrightarrow> first_occurrences xs = xs"
  by (induction xs) (auto simp: set_first_occurrences filter_id_conv)

lemma length_first_occurrences: "length (first_occurrences xs) = card (set xs)"
  by (metis distinct_card distinct_first_occurrences set_first_occurrences)

section \<open>The reference solver\<close>

lemma solver_soundD: "solver_sound check \<Longrightarrow> check fs = Sat m \<Longrightarrow> satisfies m fs"
  unfolding solver_sound_def by blast

lemma solver_completeD:
  "solver_complete check \<Longrightarrow> satisfies m fs \<Longrightarrow> \<exists>m'. check fs = Sat m'"
  unfolding solver_complete_def by blast

lemma evaluate_cong_vars:
  "(\<And>x. x \<in> set (vars_of e) \<Longrightarrow> m x = m' x) \<Longrightarrow> evaluate m e = evaluate m' e"
proof (induction e)
  case (Z3And es)
  then show ?case by (auto simp: list_all_iff)
next
  case (Z3Or es)
  then show ?case by (auto simp: list_ex_iff)
qed auto

lemma filter_in_assignments: "filter P xs \<in> set (assignments xs)"
  by (induction xs) auto

lemma enum_solver_sound: "solver_sound enum_solver"
  by (auto simp: solver_sound_def enum_solver_def find_Some_iff split: option.splits)

lemma enum_solver_complete: "solver_complete enum_solver"
proof -
  have "\<exists>m'. enum_solver fs = Sat m'" if sat: "satisfies m fs" for fs m
  proof -
    define vs where "vs = remdups (concat (map vars_of fs))"
    define ts where "ts = filter m vs"
    have "evaluate (model_of ts) f = evaluate m f" if "f \<in> set fs" for f
      using that by (intro evaluate_cong_vars) (auto simp: model_of_def ts_def vs_def)
    with sat have "satisfies (model_of ts) fs"
      by (simp add: satisfies_def list_all_iff)
    moreover have "ts \<in> set (assignments vs)"
      unfolding ts_def by (rule filter_in_assignments)
    ultimately have "List.find (\<lambda>ts. satisfies (model_of ts) fs) (assignments vs) \<noteq> None"
      by (auto simp: find_None_iff)
    then show ?thesis
      by (auto simp: enum_solver_def vs_def)
  qed
  then show ?thesis
    unfolding solver_complete_def by blast
qed

lemma satisfies_append: "satisfies m (fs @ gs) \<longleftrightarrow> satisfies m fs \<and> satisfies m gs"
  by (simp add: satisfies_def)

lemma satisfies_literals: "satisfies m (literals asg) \<longleftrightarrow> agrees m asg"
  by (induction asg) (auto simp: satisfies_def literals_def agrees_def split: if_splits)

lemma agrees_map_of:
  "distinct (keys asg) \<Longrightarrow> agrees (\<lambda>k. case map_of asg k of None \<Rightarrow> False | Some v \<Rightarrow> v) asg"
  by (auto simp: agrees_def keys_def list_all_iff)

lemma agrees_lookup: "agrees m asg \<Longrightarrow> map_of asg k = Some v \<Longrightarrow> m k = v"
  by (auto simp: agrees_def list_all_iff dest: map_of_SomeD)

section \<open>The loops of the compilers\<close>

lemma map_outputs_keys:
  "map_outputs outs em oe = Inr r \<Longrightarrow>
   keys r = keys oe @ filter (\<lambda>x. x \<notin> set (keys oe)) (first_occurrences outs)"
proof (induction outs arbitrary: oe)
  case Nil
  then show ?case by simp
next
  case (Cons out outs)
  from Cons.prems obtain e where e: "map_of em out = Some e"
    and r: "map_outputs outs em (dict_set oe out e) = Inr r"
    by (auto split: option.splits)
  have "keys r = keys (dict_set oe out e) @
      filter (\<lambda>x. x \<notin> set (keys (dict_set oe out e))) (first_occurrences outs)"
    by (rule Cons.IH [OF r])
  then show ?case
    by (auto simp: keys_dict_set intro: filter_cong)
qed

lemma map_outputs_lookup:
  "map_outputs outs em oe = Inr r \<Longrightarrow>
   map_of r x = (if x \<in> set outs then map_of em x else map_of oe x)"
proof (induction outs arbitrary: oe)
  case Nil
  then show ?case by simp
next
  case (Cons out outs)
  from Cons.prems obtain e where e: "map_of em out = Some e"
    and r: "map_outputs outs em (dict_set oe out e) = Inr r"
    by (auto split: option.splits)
  show ?case
    using Cons.IH [OF r] e by (auto simp: map_of_dict_set)
qed

lemma map_outputs_defined:
  "map_outputs outs em oe = Inr r \<Longrightarrow> x \<in> set outs \<Longrightarrow> \<exists>e. map_of em x = Some e"
  by (induction outs arbitrary: oe) (auto split: option.splits)

lemma map_outputs_succeeds:
  "(\<forall>x \<in> set outs. map_of em x \<noteq> None) \<Longrightarrow> \<exists>r. map_outputs outs em oe = Inr r"
  by (induction outs arbitrary: oe) (auto split: option.splits)

lemma map_outputs_succeeds_iff:
  "(\<exists>r. map_outputs outs em oe = Inr r) \<longleftrightarrow> set outs \<subseteq> dom (map_of em)"
  by (induction outs arbitrary: oe) (auto split: option.splits)

lemma bool_vars_empty: "bool_vars []"
  by (simp add: bool_vars_def)

lemma bool_vars_dict_set: "bool_vars zv \<Longrightarrow> bool_vars (dict_set zv k (Z3Bool k))"
  by (simp add: bool_vars_def map_of_dict_set)

lemma init_inputs_bool_vars:
  "init_inputs inps zv em = (zv', em') \<Longrightarrow> bool_vars zv \<Longrightarrow> bool_vars zv'"
  by (induction inps arbitrary: zv em) (auto split: option.splits intro: bool_vars_dict_set)

lemma init_inputs_dom:
  "init_inputs inps zv em = (zv', em') \<Longrightarrow> dom (map_of zv') = dom (map_of zv) \<union> set inps"
proof (induction inps arbitrary: zv em)
  case Nil
  then show ?case by simp
next
  case (Cons inp inps)
  show ?case
  proof (cases "map_of zv inp")
    case None
    with Cons.prems have "init_inputs inps (dict_set zv inp (Z3Bool inp))
        (dict_set em inp (Z3Bool inp)) = (zv', em')" by simp
    from Cons.IH [OF this] show ?thesis by (auto simp: map_of_dict_set)
  next
    case (Some v)
    with Cons.prems have "init_inputs inps zv (dict_set em inp v) = (zv', em')" by simp
    from Cons.IH [OF this] Some show ?thesis by auto
  qed
qed

lemma init_inputs_dom_expr_map:
  "init_inputs inps zv em = (zv', em') \<Longrightarrow> dom (map_of em') = dom (map_of em) \<union> set inps"
proof (induction inps arbitrary: zv em)
  case Nil
  then show ?case by simp
next
  case (Cons inp inps)
  show ?case
  proof (cases "map_of zv inp")
    case None
    with Cons.prems have "init_inputs inps (dict_set zv inp (Z3Bool inp))
        (dict_set em inp (Z3Bool inp)) = (zv', em')" by simp
    from Cons.IH [OF this] show ?thesis by (auto simp: map_of_dict_set)
  next
    case (Some v)
    with Cons.prems have "init_inputs inps zv (dict_set em inp v) = (zv', em')" by simp
    from Cons.IH [OF this] show ?thesis by (auto simp: map_of_dict_set)
  qed
qed

lemma init_inputs_expr_map:
  "init_inputs inps zv em = (zv', em') \<Longrightarrow> bool_vars zv \<Longrightarrow>
   map_of em' s = (if s \<in> set inps then Some (Z3Bool s) else map_of em s)"
proof (induction inps arbitrary: zv em)
  case Nil
  then show ?case by simp
next
  case (Cons inp inps)
  show ?case
  proof (cases "map_of zv inp")
    case None
    with Cons.prems have r: "init_inputs inps (dict_set zv inp (Z3Bool inp))
        (dict_set em inp (Z3Bool inp)) = (zv', em')" by simp
    from Cons.IH [OF r bool_vars_dict_set [OF Cons.prems(2)]]
    show ?thesis by (auto simp: map_of_dict_set)
  next
    case (Some v)
    with Cons.prems have r: "init_inputs inps zv (dict_set em inp v) = (zv', em')" by simp
    from Some Cons.prems(2) have v: "v = Z3Bool inp" by (simp add: bool_vars_def)
    from Cons.IH [OF r Cons.prems(2)] v show ?thesis by (auto simp: map_of_dict_set)
  qed
qed

lemma init_inputs_snd:
  "bool_vars zv \<Longrightarrow> bool_vars zv2 \<Longrightarrow>
   snd (init_inputs inps zv em) = snd (init_inputs inps zv2 em)"
proof (induction inps arbitrary: zv zv2 em)
  case Nil
  then show ?case by simp
next
  case (Cons inp inps)
  have a: "snd (init_inputs (inp # inps) z em) =
      snd (init_inputs inps (case map_of z inp of None \<Rightarrow> dict_set z inp (Z3Bool inp) | Some v \<Rightarrow> z)
        (dict_set em inp (Z3Bool inp)))" if "bool_vars z" for z
    using that by (auto simp: bool_vars_def split: option.splits)
  have b: "bool_vars (case map_of z inp of None \<Rightarrow> dict_set z inp (Z3Bool inp) | Some v \<Rightarrow> z)"
    if "bool_vars z" for z
    using that by (auto split: option.splits intro: bool_vars_dict_set)
  show ?case
    unfolding a [OF Cons.prems(1)] a [OF Cons.prems(2)]
    by (rule Cons.IH [OF b [OF Cons.prems(1)] b [OF Cons.prems(2)]])
qed

lemma lookup_signals_Inr:
  "lookup_signals em sigs = Inr args \<Longrightarrow> list_all2 (\<lambda>s e. map_of em s = Some e) sigs args"
  by (induction sigs arbitrary: args) (auto split: option.splits sum.splits)

lemma lookup_signals_values:
  assumes "lookup_signals em sigs = Inr args"
    and "\<forall>s e. map_of em s = Some e \<longrightarrow> evaluate m e = env s"
  shows "map (evaluate m) args = map env sigs"
proof -
  have "list_all2 (\<lambda>s e. map_of em s = Some e) sigs args"
    by (rule lookup_signals_Inr [OF assms(1)])
  then show ?thesis
    by (induction rule: list_all2_induct) (auto simp: assms(2))
qed

lemma lookup_signals_succeeds:
  "(\<exists>args. lookup_signals em sigs = Inr args) \<longleftrightarrow> set sigs \<subseteq> dom (map_of em)"
  by (induction sigs) (auto split: option.splits sum.splits)

lemma lookup_signals_length:
  "lookup_signals em sigs = Inr args \<Longrightarrow> length args = length sigs"
  by (induction sigs arbitrary: args) (auto split: option.splits sum.splits)

lemma gate_expr_value:
  "gate_expr n ty args = Inr e \<Longrightarrow> evaluate m e = spec_gate_value ty (map (evaluate m) args)"
  by (auto simp: gate_expr_def spec_gate_value_def list_all_iff list_ex_iff
      split: if_splits list.splits)

lemma gate_expr_succeeds:
  "(\<exists>e. gate_expr n ty args = Inr e) \<longleftrightarrow> type_arity_ok ty (length args)"
  by (auto simp: gate_expr_def type_arity_ok_def split: list.splits)

lemma gates_ok_distinct:
  "gates_ok gs names defined \<Longrightarrow> distinct (map gname gs) \<and> names \<inter> gname ` set gs = {}"
  by (induction gs arbitrary: names defined) auto

lemma well_formed_distinct: "well_formed c \<Longrightarrow> distinct (map gname (gates c))"
  using gates_ok_distinct [of "gates c" "{}" "set (inputs c)"] by (simp add: well_formed_def)

section \<open>The compiler of the equivalence checker\<close>

lemma ce_build_z3_expr_any_vars:
  assumes "bool_vars zv"
  shows "map_sum id fst (ce_build_z3_expr c zv) = map_sum id fst (ce_build_z3_expr c [])"
proof -
  have "snd (init_inputs (inputs c) zv []) = snd (init_inputs (inputs c) [] [])"
    by (rule init_inputs_snd [OF assms bool_vars_empty])
  then show ?thesis
    by (auto simp: ce_build_z3_expr_def split: prod.splits sum.splits)
qed

lemma ce_process_gates_value:
  "ce_process_gates gs names em = Inr em' \<Longrightarrow>
   \<forall>s e. map_of em s = Some e \<longrightarrow> evaluate m e = env s \<Longrightarrow>
   \<forall>s e. map_of em' s = Some e \<longrightarrow> evaluate m e = spec_simulate gs env s"
proof (induction gs arbitrary: names em env)
  case Nil
  then show ?case by simp
next
  case (Cons g gs)
  from Cons.prems(1) obtain args expr where
    args: "lookup_signals em (ginputs g) = Inr args" and
    expr: "gate_expr (gname g) (upper (gtype g)) args = Inr expr" and
    rest: "ce_process_gates gs (insert (gname g) names) (dict_set em (gname g) expr) = Inr em'"
    by (auto split: if_splits sum.splits)
  define v where "v = spec_gate_value (upper (gtype g)) (map env (ginputs g))"
  have "evaluate m expr = v"
    using gate_expr_value [OF expr, of m] lookup_signals_values [OF args Cons.prems(2)]
    by (simp add: v_def)
  then have inv: "\<forall>s e. map_of (dict_set em (gname g) expr) s = Some e \<longrightarrow>
      evaluate m e = (env(gname g := v)) s"
    using Cons.prems(2) by (auto simp: map_of_dict_set)
  have step: "spec_simulate (g # gs) env = spec_simulate gs (env(gname g := v))"
    by (simp add: v_def)
  show ?case
    unfolding step by (rule Cons.IH [OF rest inv])
qed

lemma ce_build_z3_expr_value:
  assumes "ce_build_z3_expr c zv = Inr (oe, zv')" and "bool_vars zv"
    and "map_of oe s = Some e"
  shows "evaluate m e = spec_simulate (gates c) m s"
proof -
  from assms(1) obtain zv0 em0 em where
    init: "init_inputs (inputs c) zv [] = (zv0, em0)" and
    gs: "ce_process_gates (gates c) {} em0 = Inr em" and
    outs: "map_outputs (outputs c) em [] = Inr oe"
    by (auto simp: ce_build_z3_expr_def split: prod.splits sum.splits)
  have inv: "\<forall>s e. map_of em0 s = Some e \<longrightarrow> evaluate m e = m s"
    using init_inputs_expr_map [OF init assms(2)] by (auto split: if_splits)
  from assms(3) have "map_of em s = Some e"
    using map_outputs_lookup [OF outs, of s] by (auto split: if_splits)
  then show ?thesis
    using ce_process_gates_value [OF gs inv] by blast
qed

lemma ce_build_z3_expr_keys:
  "ce_build_z3_expr c zv = Inr (oe, zv') \<Longrightarrow> keys oe = first_occurrences (outputs c)"
  by (auto simp: ce_build_z3_expr_def keys_def split: prod.splits sum.splits
      dest!: map_outputs_keys [unfolded keys_def])

lemma ce_build_z3_expr_length:
  "ce_build_z3_expr c zv = Inr (oe, zv') \<Longrightarrow> length oe = card (set (outputs c))"
  using ce_build_z3_expr_keys [of c zv oe zv'] length_first_occurrences [of "outputs c"]
  by (metis keys_def length_map)

lemma ce_build_z3_expr_vars:
  assumes "ce_build_z3_expr c zv = Inr (oe, zv')" and "bool_vars zv"
  shows "bool_vars zv'" and "dom (map_of zv') = dom (map_of zv) \<union> set (inputs c)"
proof -
  from assms(1) obtain em0 where init: "init_inputs (inputs c) zv [] = (zv', em0)"
    by (auto simp: ce_build_z3_expr_def split: prod.splits sum.splits)
  show "bool_vars zv'" by (rule init_inputs_bool_vars [OF init assms(2)])
  show "dom (map_of zv') = dom (map_of zv) \<union> set (inputs c)" by (rule init_inputs_dom [OF init])
qed

lemma ce_process_gates_succeeds:
  "(\<exists>em'. ce_process_gates gs names em = Inr em') \<longleftrightarrow> gates_ok gs names (dom (map_of em))"
proof (induction gs arbitrary: names em)
  case Nil
  then show ?case by simp
next
  case (Cons g gs)
  show ?case
  proof (cases "gname g \<notin> names \<and> set (ginputs g) \<subseteq> dom (map_of em)")
    case False
    then show ?thesis
      using lookup_signals_succeeds [of em "ginputs g"] by (auto split: sum.splits)
  next
    case True
    then obtain args where args: "lookup_signals em (ginputs g) = Inr args"
      using lookup_signals_succeeds [of em "ginputs g"] by auto
    note len = lookup_signals_length [OF args]
    show ?thesis
    proof (cases "gate_expr (gname g) (upper (gtype g)) args")
      case (Inl e)
      then have "\<not> type_arity_ok (upper (gtype g)) (length (ginputs g))"
        using gate_expr_succeeds [of "gname g" "upper (gtype g)" args] len by auto
      then show ?thesis using True args Inl by simp
    next
      case (Inr expr)
      then have ok: "type_arity_ok (upper (gtype g)) (length (ginputs g))"
        using gate_expr_succeeds [of "gname g" "upper (gtype g)" args] len by auto
      have "dom (map_of (dict_set em (gname g) expr)) = insert (gname g) (dom (map_of em))"
        by (simp add: map_of_dict_set)
      then show ?thesis
        using True args Inr ok Cons.IH [of "insert (gname g) names" "dict_set em (gname g) expr"]
        by simp
    qed
  qed
qed

lemma ce_process_gates_dom:
  "ce_process_gates gs names em = Inr em' \<Longrightarrow>
   dom (map_of em') = dom (map_of em) \<union> gname ` set gs"
proof (induction gs arbitrary: names em)
  case Nil
  then show ?case by simp
next
  case (Cons g gs)
  from Cons.prems obtain expr where
    "ce_process_gates gs (insert (gname g) names) (dict_set em (gname g) expr) = Inr em'"
    by (auto split: if_splits sum.splits)
  from Cons.IH [OF this] show ?case by (auto simp: map_of_dict_set)
qed

lemma ce_build_z3_expr_succeeds:
  "(\<exists>r. ce_build_z3_expr c zv = Inr r) \<longleftrightarrow> well_formed c"
proof -
  obtain zv0 em0 where init: "init_inputs (inputs c) zv [] = (zv0, em0)"
    by (cases "init_inputs (inputs c) zv []") auto
  have d0: "dom (map_of em0) = set (inputs c)"
    using init_inputs_dom_expr_map [OF init] by simp
  show ?thesis
  proof (cases "ce_process_gates (gates c) {} em0")
    case (Inl e)
    then have "\<not> gates_ok (gates c) {} (set (inputs c))"
      using ce_process_gates_succeeds [of "gates c" "{}" em0] d0 by auto
    then show ?thesis
      using init Inl by (simp add: ce_build_z3_expr_def well_formed_def)
  next
    case (Inr em)
    then have ok: "gates_ok (gates c) {} (set (inputs c))"
      using ce_process_gates_succeeds [of "gates c" "{}" em0] d0 by auto
    have "dom (map_of em) = set (inputs c) \<union> gname ` set (gates c)"
      using ce_process_gates_dom [OF Inr] d0 by simp
    then show ?thesis
      using init Inr ok map_outputs_succeeds_iff [of "outputs c" em "[]"]
      by (auto simp: ce_build_z3_expr_def well_formed_def split: sum.splits)
  qed
qed

lemma structurally_valid_well_formed: "structurally_valid c \<longleftrightarrow> well_formed c"
  using ce_build_z3_expr_succeeds [of c "[]"]
  by (cases "ce_build_z3_expr c []") (auto simp: structurally_valid_def)

lemma structurally_valid_built:
  assumes "structurally_valid A" and "structurally_valid B"
  obtains o1 zv1 o2 zv2 where "ce_build_z3_expr A [] = Inr (o1, zv1)"
    and "ce_build_z3_expr B zv1 = Inr (o2, zv2)"
proof -
  from assms(1) obtain o1 zv1 where b1: "ce_build_z3_expr A [] = Inr (o1, zv1)"
    by (auto simp: structurally_valid_def split: sum.splits)
  from assms(2) obtain o2 zv0 where b0: "ce_build_z3_expr B [] = Inr (o2, zv0)"
    by (auto simp: structurally_valid_def split: sum.splits)
  have "bool_vars zv1" by (rule ce_build_z3_expr_vars(1) [OF b1 bool_vars_empty])
  from ce_build_z3_expr_any_vars [OF this, of B] b0
  obtain zv2 where "ce_build_z3_expr B zv1 = Inr (o2, zv2)"
    by (cases "ce_build_z3_expr B zv1") auto
  with b1 show thesis by (rule that)
qed

section \<open>The equivalence check, once both circuits are compiled\<close>

lemma diff_constraints_zip:
  "distinct (keys o1) \<Longrightarrow> distinct (keys o2) \<Longrightarrow> set xs \<subseteq> set o1 \<Longrightarrow> set ys \<subseteq> set o2 \<Longrightarrow>
   diff_constraints o1 o2 (zip (keys xs) (keys ys)) =
     Inr (map (\<lambda>(x, y). Z3Ne (snd x) (snd y)) (zip xs ys))"
proof (induction xs arbitrary: ys)
  case Nil
  then show ?case by (simp add: keys_def)
next
  case (Cons x xs)
  show ?case
  proof (cases ys)
    case Nil
    then show ?thesis by (simp add: keys_def)
  next
    case (Cons y ys')
    have x: "getitem o1 (fst x) = Inr (snd x)"
      using Cons.prems by (intro getitem_member) auto
    have y: "getitem o2 (fst y) = Inr (snd y)"
      using Cons.prems Cons by (intro getitem_member) auto
    have "diff_constraints o1 o2 (zip (keys xs) (keys ys')) =
        Inr (map (\<lambda>(x, y). Z3Ne (snd x) (snd y)) (zip xs ys'))"
      using Cons.prems Cons by (intro Cons.IH) auto
    then show ?thesis
      using x y Cons by (simp add: keys_def)
  qed
qed

lemma differing_outputs_zip:
  "distinct (keys o1) \<Longrightarrow> distinct (keys o2) \<Longrightarrow> set xs \<subseteq> set o1 \<Longrightarrow> set ys \<subseteq> set o2 \<Longrightarrow>
   differing_outputs m o1 o2 (zip (keys xs) (keys ys)) =
     Inr (map (\<lambda>(x, y). (fst x, fst y, evaluate m (snd x), evaluate m (snd y)))
            (filter (\<lambda>(x, y). evaluate m (snd x) \<noteq> evaluate m (snd y)) (zip xs ys)))"
proof (induction xs arbitrary: ys)
  case Nil
  then show ?case by (simp add: keys_def)
next
  case (Cons x xs)
  show ?case
  proof (cases ys)
    case Nil
    then show ?thesis by (simp add: keys_def)
  next
    case (Cons y ys')
    have x: "getitem o1 (fst x) = Inr (snd x)"
      using Cons.prems by (intro getitem_member) auto
    have y: "getitem o2 (fst y) = Inr (snd y)"
      using Cons.prems Cons by (intro getitem_member) auto
    have "differing_outputs m o1 o2 (zip (keys xs) (keys ys')) =
        Inr (map (\<lambda>(x, y). (fst x, fst y, evaluate m (snd x), evaluate m (snd y)))
            (filter (\<lambda>(x, y). evaluate m (snd x) \<noteq> evaluate m (snd y)) (zip xs ys')))"
      using Cons.prems Cons by (intro Cons.IH) auto
    then show ?thesis
      using x y Cons by (simp add: keys_def)
  qed
qed

lemma check_circuit_equivalence_built:
  assumes b1: "ce_build_z3_expr A [] = Inr (o1, zv1)"
    and b2: "ce_build_z3_expr B zv1 = Inr (o2, zv2)"
  shows "check_circuit_equivalence check A B =
     (if length o1 \<noteq> length o2 then (Inr (False, None), [])
      else
        (case check [miter o1 o2] of
           Sat model \<Rightarrow>
             (Inr (False, Some (input_assignment model zv2 (inputs A) [], differing model o1 o2)),
              [[miter o1 o2]])
         | _ \<Rightarrow> (Inr (True, None), [[miter o1 o2]])))"
proof -
  have d1: "distinct (keys o1)" and d2: "distinct (keys o2)"
    using ce_build_z3_expr_keys [OF b1] ce_build_z3_expr_keys [OF b2]
    by (simp_all add: distinct_first_occurrences)
  have dc: "diff_constraints o1 o2 (output_pairs o1 o2) =
      Inr (map (\<lambda>(x, y). Z3Ne (snd x) (snd y)) (zip o1 o2))"
    unfolding output_pairs_def by (rule diff_constraints_zip [OF d1 d2]) simp_all
  have df: "differing_outputs m o1 o2 (output_pairs o1 o2) = Inr (differing m o1 o2)" for m
    unfolding output_pairs_def differing_def by (rule differing_outputs_zip [OF d1 d2]) simp_all
  show ?thesis
    by (simp add: check_circuit_equivalence_def b1 b2 dc df miter_def split: check_result.splits)
qed

lemma check_circuit_equivalence_returns:
  assumes "fst (check_circuit_equivalence check A B) = Inr r"
  obtains o1 zv1 o2 zv2 where "ce_build_z3_expr A [] = Inr (o1, zv1)"
    and "ce_build_z3_expr B zv1 = Inr (o2, zv2)"
  using assms by (auto simp: check_circuit_equivalence_def split: sum.splits prod.splits)

lemma miter_value_zip:
  "length xs = length ys \<Longrightarrow>
   \<forall>x \<in> set xs. ev (snd x) = f (fst x) \<Longrightarrow>
   \<forall>y \<in> set ys. ev (snd y) = g (fst y) \<Longrightarrow>
   list_ex (\<lambda>(x, y). ev (snd x) \<noteq> ev (snd y)) (zip xs ys) = (map f (keys xs) \<noteq> map g (keys ys))"
  by (induction xs ys rule: list_induct2) (auto simp: keys_def)

lemma evaluate_miter:
  assumes b1: "ce_build_z3_expr A [] = Inr (o1, zv1)"
    and b2: "ce_build_z3_expr B zv1 = Inr (o2, zv2)"
    and len: "length o1 = length o2"
  shows "evaluate m (miter o1 o2) =
     (map (spec_simulate (gates A) m) (first_occurrences (outputs A)) \<noteq>
      map (spec_simulate (gates B) m) (first_occurrences (outputs B)))"
proof -
  have d1: "distinct (keys o1)" and d2: "distinct (keys o2)"
    using ce_build_z3_expr_keys [OF b1] ce_build_z3_expr_keys [OF b2]
    by (simp_all add: distinct_first_occurrences)
  have bv: "bool_vars zv1"
    by (rule ce_build_z3_expr_vars(1) [OF b1 bool_vars_empty])
  have v1: "\<forall>x \<in> set o1. evaluate m (snd x) = spec_simulate (gates A) m (fst x)"
  proof
    fix x assume "x \<in> set o1"
    with d1 have "map_of o1 (fst x) = Some (snd x)" by (cases x) (simp add: keys_def)
    then show "evaluate m (snd x) = spec_simulate (gates A) m (fst x)"
      by (rule ce_build_z3_expr_value [OF b1 bool_vars_empty])
  qed
  have v2: "\<forall>y \<in> set o2. evaluate m (snd y) = spec_simulate (gates B) m (fst y)"
  proof
    fix y assume "y \<in> set o2"
    with d2 have "map_of o2 (fst y) = Some (snd y)" by (cases y) (simp add: keys_def)
    then show "evaluate m (snd y) = spec_simulate (gates B) m (fst y)"
      by (rule ce_build_z3_expr_value [OF b2 bv])
  qed
  have "evaluate m (miter o1 o2) =
      list_ex (\<lambda>(x, y). evaluate m (snd x) \<noteq> evaluate m (snd y)) (zip o1 o2)"
    by (simp add: miter_def list_ex_iff split_beta)
  also have "\<dots> = (map (spec_simulate (gates A) m) (keys o1) \<noteq>
      map (spec_simulate (gates B) m) (keys o2))"
    by (rule miter_value_zip [OF len v1 v2])
  finally show ?thesis
    by (simp add: ce_build_z3_expr_keys [OF b1] ce_build_z3_expr_keys [OF b2])
qed

lemma miter_self_unsat: "\<not> evaluate m (miter oe oe)"
  by (induction oe) (auto simp: miter_def)

lemma spec_outputs_distinct:
  "distinct (outputs c) \<Longrightarrow>
   map (spec_simulate (gates c) m) (first_occurrences (outputs c)) = spec_outputs c m"
  by (simp add: spec_outputs_def first_occurrences_distinct)

lemma input_assignment_keys:
  "\<forall>x \<in> set vars. map_of zv x \<noteq> None \<Longrightarrow>
   keys (input_assignment m zv vars acc) =
     keys acc @ filter (\<lambda>x. x \<notin> set (keys acc)) (first_occurrences vars)"
proof (induction vars arbitrary: acc)
  case Nil
  then show ?case by simp
next
  case (Cons var vars)
  from Cons.prems obtain v where v: "map_of zv var = Some v" by auto
  have "keys (input_assignment m zv vars (dict_set acc var (evaluate m v))) =
      keys (dict_set acc var (evaluate m v)) @
      filter (\<lambda>x. x \<notin> set (keys (dict_set acc var (evaluate m v)))) (first_occurrences vars)"
    using Cons.prems by (intro Cons.IH) simp
  then show ?case
    using v by (auto simp: keys_dict_set intro: filter_cong)
qed

lemma duplicate_gate_exits:
  assumes "\<not> distinct (map gname (gates c))"
  shows "check_circuit_equivalence check c other = (Inl (SystemExit 1), [])"
    and "check_circuit_equivalence check other c = (Inl (SystemExit 1), [])"
proof -
  from assms have nw: "\<not> well_formed c" using well_formed_distinct by blast
  then have a: "\<not> (\<exists>r. ce_build_z3_expr c zv = Inr r)" for zv
    using ce_build_z3_expr_succeeds [of c zv] by blast
  from a [of "[]"] show "check_circuit_equivalence check c other = (Inl (SystemExit 1), [])"
    by (auto simp: check_circuit_equivalence_def split: sum.splits)
  show "check_circuit_equivalence check other c = (Inl (SystemExit 1), [])"
  proof (cases "ce_build_z3_expr other []")
    case (Inl e)
    then show ?thesis by (simp add: check_circuit_equivalence_def)
  next
    case (Inr r)
    obtain o1 zv1 where "r = (o1, zv1)" by (cases r) auto
    with Inr a [of zv1] show ?thesis
      by (auto simp: check_circuit_equivalence_def split: sum.splits)
  qed
qed

section \<open>The compiler of the validator, and the validation once the circuit is compiled\<close>

lemma cv_process_gates_succeeds:
  "(\<exists>r. cv_process_gates gs names zv em cs = Inr r) \<longleftrightarrow> gates_ok gs names (dom (map_of em))"
proof (induction gs arbitrary: names zv em cs)
  case Nil
  then show ?case by simp
next
  case (Cons g gs)
  show ?case
  proof (cases "gname g \<notin> names \<and> set (ginputs g) \<subseteq> dom (map_of em)")
    case False
    then show ?thesis
      using lookup_signals_succeeds [of em "ginputs g"] by (auto split: sum.splits)
  next
    case True
    then obtain args where args: "lookup_signals em (ginputs g) = Inr args"
      using lookup_signals_succeeds [of em "ginputs g"] by auto
    note len = lookup_signals_length [OF args]
    obtain zv' out where var:
      "(case map_of zv (gname g) of
          None \<Rightarrow> (dict_set zv (gname g) (Z3Bool (gname g)), Z3Bool (gname g))
        | Some v \<Rightarrow> (zv, v)) = (zv', out)"
      by (cases "map_of zv (gname g)") auto
    show ?thesis
    proof (cases "gate_expr (gname g) (upper (gtype g)) args")
      case (Inl e)
      then have "\<not> type_arity_ok (upper (gtype g)) (length (ginputs g))"
        using gate_expr_succeeds [of "gname g" "upper (gtype g)" args] len by auto
      then show ?thesis using True args Inl var by simp
    next
      case (Inr expr)
      then have ok: "type_arity_ok (upper (gtype g)) (length (ginputs g))"
        using gate_expr_succeeds [of "gname g" "upper (gtype g)" args] len by auto
      have "dom (map_of (dict_set em (gname g) out)) = insert (gname g) (dom (map_of em))"
        by (simp add: map_of_dict_set)
      then show ?thesis
        using True args Inr ok var
          Cons.IH [of "insert (gname g) names" zv' "dict_set em (gname g) out"
            "cs @ [Z3Eq out expr]"]
        by simp
    qed
  qed
qed

lemma cv_process_gates_dom:
  "cv_process_gates gs names zv em cs = Inr (zv', em', cs') \<Longrightarrow>
   dom (map_of em') = dom (map_of em) \<union> gname ` set gs \<and>
   dom (map_of zv') = dom (map_of zv) \<union> gname ` set gs"
proof (induction gs arbitrary: names zv em cs)
  case Nil
  then show ?case by simp
next
  case (Cons g gs)
  from Cons.prems obtain zv1 out expr where
    var: "(case map_of zv (gname g) of
          None \<Rightarrow> (dict_set zv (gname g) (Z3Bool (gname g)), Z3Bool (gname g))
        | Some v \<Rightarrow> (zv, v)) = (zv1, out)" and
    rest: "cv_process_gates gs (insert (gname g) names) zv1 (dict_set em (gname g) out)
      (cs @ [Z3Eq out expr]) = Inr (zv', em', cs')"
    by (auto split: if_splits sum.splits prod.splits)
  from var have "dom (map_of zv1) = insert (gname g) (dom (map_of zv))"
    by (auto simp: map_of_dict_set split: option.splits)
  with Cons.IH [OF rest] show ?case by (auto simp: map_of_dict_set)
qed

lemma cv_process_gates_bool_vars:
  "cv_process_gates gs names zv em cs = Inr (zv', em', cs') \<Longrightarrow> bool_vars zv \<Longrightarrow> bool_vars zv'"
proof (induction gs arbitrary: names zv em cs)
  case Nil
  then show ?case by simp
next
  case (Cons g gs)
  from Cons.prems(1) obtain zv1 out expr where
    var: "(case map_of zv (gname g) of
          None \<Rightarrow> (dict_set zv (gname g) (Z3Bool (gname g)), Z3Bool (gname g))
        | Some v \<Rightarrow> (zv, v)) = (zv1, out)" and
    rest: "cv_process_gates gs (insert (gname g) names) zv1 (dict_set em (gname g) out)
      (cs @ [Z3Eq out expr]) = Inr (zv', em', cs')"
    by (auto split: if_splits sum.splits prod.splits)
  from var Cons.prems(2) have "bool_vars zv1"
    by (auto split: option.splits intro: bool_vars_dict_set)
  with rest show ?case by (rule Cons.IH)
qed

lemma cv_build_z3_expr_succeeds:
  "(\<exists>r. cv_build_z3_expr c zv = Inr r) \<longleftrightarrow> well_formed c"
proof -
  obtain zv0 em0 where init: "init_inputs (inputs c) zv [] = (zv0, em0)"
    by (cases "init_inputs (inputs c) zv []") auto
  have d0: "dom (map_of em0) = set (inputs c)"
    using init_inputs_dom_expr_map [OF init] by simp
  show ?thesis
  proof (cases "cv_process_gates (gates c) {} zv0 em0 []")
    case (Inl e)
    then have "\<not> gates_ok (gates c) {} (set (inputs c))"
      using cv_process_gates_succeeds [of "gates c" "{}" zv0 em0 "[]"] d0 by auto
    then show ?thesis
      using init Inl by (simp add: cv_build_z3_expr_def well_formed_def)
  next
    case (Inr r)
    then have "\<exists>r. cv_process_gates (gates c) {} zv0 em0 [] = Inr r" by blast
    then have "gates_ok (gates c) {} (dom (map_of em0))"
      using cv_process_gates_succeeds [of "gates c" "{}" zv0 em0 "[]"] by blast
    then have ok: "gates_ok (gates c) {} (set (inputs c))" by (simp add: d0)
    obtain zv' em cs where r: "r = (zv', em, cs)" by (cases r) auto
    have "dom (map_of em) = set (inputs c) \<union> gname ` set (gates c)"
      using cv_process_gates_dom [OF Inr [unfolded r]] d0 by simp
    then show ?thesis
      using init Inr r ok map_outputs_succeeds_iff [of "outputs c" em "[]"]
      by (auto simp: cv_build_z3_expr_def well_formed_def split: sum.splits)
  qed
qed

lemma cv_build_z3_expr_facts:
  assumes "cv_build_z3_expr c [] = Inr (outs, cs, zv)"
  shows "bool_vars zv"
    and "dom (map_of zv) = set (inputs c) \<union> gname ` set (gates c)"
    and "\<forall>out \<in> set (outputs c). map_of outs out \<noteq> None"
    and "keys outs = first_occurrences (outputs c)"
proof -
  from assms obtain zv0 em0 em where
    init: "init_inputs (inputs c) [] [] = (zv0, em0)" and
    gs: "cv_process_gates (gates c) {} zv0 em0 [] = Inr (zv, em, cs)" and
    mo: "map_outputs (outputs c) em [] = Inr outs"
    by (auto simp: cv_build_z3_expr_def split: prod.splits sum.splits)
  have bv0: "bool_vars zv0"
    by (rule init_inputs_bool_vars [OF init bool_vars_empty])
  show "bool_vars zv"
    by (rule cv_process_gates_bool_vars [OF gs bv0])
  show "dom (map_of zv) = set (inputs c) \<union> gname ` set (gates c)"
    using cv_process_gates_dom [OF gs] init_inputs_dom [OF init] by simp
  show "\<forall>out \<in> set (outputs c). map_of outs out \<noteq> None"
    using map_outputs_lookup [OF mo] map_outputs_defined [OF mo] by auto
  show "keys outs = first_occurrences (outputs c)"
    using map_outputs_keys [OF mo] by (simp add: keys_def)
qed

lemma apply_input_assignments_Next:
  "set (keys ia) \<subseteq> set (inputs c) \<Longrightarrow> set (inputs c) \<subseteq> dom (map_of zv) \<Longrightarrow> bool_vars zv \<Longrightarrow>
   apply_input_assignments c zv ia = Next (literals ia)"
proof (induction ia)
  case Nil
  then show ?case by (simp add: literals_def)
next
  case (Cons p ia)
  obtain inp val where p: "p = (inp, val)" by (cases p) auto
  with Cons.prems have "inp \<in> set (inputs c)" by (simp add: keys_def)
  with Cons.prems obtain v where "map_of zv inp = Some v" by auto
  moreover from this Cons.prems(3) have "v = Z3Bool inp" by (simp add: bool_vars_def)
  moreover have "apply_input_assignments c zv ia = Next (literals ia)"
    using Cons.prems by (intro Cons.IH) (auto simp: keys_def)
  ultimately show ?case
    using p \<open>inp \<in> set (inputs c)\<close> by (simp add: getitem_def literals_def)
qed

lemma apply_signal_assignments_Next:
  "set (keys sa) \<subseteq> dom (map_of zv) \<Longrightarrow> bool_vars zv \<Longrightarrow>
   apply_signal_assignments zv sa = Next (literals sa)"
proof (induction sa)
  case Nil
  then show ?case by (simp add: literals_def)
next
  case (Cons p sa)
  obtain sig val where p: "p = (sig, val)" by (cases p) auto
  with Cons.prems obtain v where "map_of zv sig = Some v" by (auto simp: keys_def)
  moreover from this Cons.prems(2) have "v = Z3Bool sig" by (simp add: bool_vars_def)
  moreover have "apply_signal_assignments zv sa = Next (literals sa)"
    using Cons.prems by (intro Cons.IH) (auto simp: keys_def)
  ultimately show ?case
    using p by (simp add: literals_def)
qed

lemma validate_circuit_built:
  assumes b: "cv_build_z3_expr c [] = Inr (outs, cs, zv)"
    and ia: "set (keys ia) \<subseteq> set (inputs c)"
    and sa: "set (keys (dict_or_empty sa)) \<subseteq> set (inputs c) \<union> gname ` set (gates c)"
  shows "validate_circuit check c ia sa =
     (case check (cs @ literals ia @ literals (dict_or_empty sa)) of
        Sat model \<Rightarrow>
          (case output_values model outs (outputs c) [] of
             Inl x \<Rightarrow> Inl x
           | Inr ov \<Rightarrow> Inr (True, OutputValues ov))
      | _ \<Rightarrow> Inr (False, Msg ContradictionMsg))"
proof -
  note f = cv_build_z3_expr_facts [OF b]
  have i: "apply_input_assignments c zv ia = Next (literals ia)"
    using ia f(1,2) by (intro apply_input_assignments_Next) auto
  have s: "(case sa of None \<Rightarrow> Next [] | Some s \<Rightarrow> apply_signal_assignments zv s) =
      Next (literals (dict_or_empty sa))"
  proof (cases sa)
    case None
    then show ?thesis by (simp add: dict_or_empty_def literals_def)
  next
    case (Some s)
    with sa f(1,2) have "apply_signal_assignments zv s = Next (literals s)"
      by (intro apply_signal_assignments_Next) (auto simp: dict_or_empty_def)
    with Some show ?thesis by (simp add: dict_or_empty_def)
  qed
  show ?thesis
    by (simp add: validate_circuit_def b i s)
qed

lemma output_values_result:
  "\<forall>out \<in> set os. map_of outs out \<noteq> None \<Longrightarrow>
   \<exists>ov. output_values m outs os acc = Inr ov \<and>
     keys ov = keys acc @ filter (\<lambda>x. x \<notin> set (keys acc)) (first_occurrences os) \<and>
     (\<forall>x. map_of ov x =
        (if x \<in> set os then map_option (evaluate m) (map_of outs x) else map_of acc x))"
proof (induction os arbitrary: acc)
  case Nil
  then show ?case by simp
next
  case (Cons out os)
  from Cons.prems obtain e where e: "map_of outs out = Some e" by auto
  from Cons.prems have "\<forall>out \<in> set os. map_of outs out \<noteq> None" by simp
  from Cons.IH [OF this, of "dict_set acc out (evaluate m e)"]
  obtain ov where ov: "output_values m outs os (dict_set acc out (evaluate m e)) = Inr ov"
    and k: "keys ov = keys (dict_set acc out (evaluate m e)) @
        filter (\<lambda>x. x \<notin> set (keys (dict_set acc out (evaluate m e)))) (first_occurrences os)"
    and v: "\<forall>x. map_of ov x =
        (if x \<in> set os then map_option (evaluate m) (map_of outs x)
         else map_of (dict_set acc out (evaluate m e)) x)"
    by blast
  have "output_values m outs (out # os) acc = Inr ov"
    using e ov by (simp add: getitem_def)
  moreover have "keys ov = keys acc @
      filter (\<lambda>x. x \<notin> set (keys acc)) (first_occurrences (out # os))"
    using k by (auto simp: keys_dict_set intro: filter_cong)
  moreover have "\<forall>x. map_of ov x =
      (if x \<in> set (out # os) then map_option (evaluate m) (map_of outs x) else map_of acc x)"
    using v e by (auto simp: map_of_dict_set)
  ultimately show ?case by blast
qed

section \<open>Unfolding the definitions on concrete circuits\<close>

lemmas run_defs =
  ce_build_z3_expr_def cv_build_z3_expr_def check_circuit_equivalence_def validate_circuit_def
  gate_expr_def upper_def upper_char_def getitem_def output_pairs_def keys_def
  enum_solver_def satisfies_def model_of_def structurally_valid_def

section \<open>Equivalence checking\<close>

subsection \<open>Outputs lists that repeat no name\<close>

text \<open>
  What the equivalence check does guarantee. For every pair of structurally valid
  circuits A and B whose outputs lists repeat no name and have equal length, and a solver
  that is sound and complete, \<open>check_circuit_equivalence\<close> reports NotEquivalent exactly
  when some assignment to the input variables makes at least one positional output pair
  evaluate to different truth values, and reports Equivalent exactly when every
  assignment makes all positional output pairs agree. The truth values are those of the
  reference semantics, and two output lists of equal length differ exactly when they
  differ at some position.
\<close>

lemma check_circuit_equivalence_decides:
  assumes sound: "solver_sound check" and complete: "solver_complete check"
    and A: "structurally_valid A" and B: "structurally_valid B"
    and dA: "distinct (outputs A)" and dB: "distinct (outputs B)"
    and len: "length (outputs A) = length (outputs B)"
  shows "((\<exists>cex. fst (check_circuit_equivalence check A B) = Inr (False, cex)) \<longleftrightarrow>
            (\<exists>env. spec_outputs A env \<noteq> spec_outputs B env)) \<and>
         (fst (check_circuit_equivalence check A B) = Inr (True, None) \<longleftrightarrow>
            (\<forall>env. spec_outputs A env = spec_outputs B env))"
proof -
  from A B obtain o1 zv1 o2 zv2 where b1: "ce_build_z3_expr A [] = Inr (o1, zv1)"
    and b2: "ce_build_z3_expr B zv1 = Inr (o2, zv2)"
    by (rule structurally_valid_built)
  have l: "length o1 = length o2"
    using ce_build_z3_expr_length [OF b1] ce_build_z3_expr_length [OF b2] dA dB len
    by (simp add: distinct_card)
  have ev: "evaluate m (miter o1 o2) = (spec_outputs A m \<noteq> spec_outputs B m)" for m
    by (simp add: evaluate_miter [OF b1 b2 l] spec_outputs_distinct dA dB)
  show ?thesis
  proof (cases "check [miter o1 o2]")
    case (Sat m)
    have "spec_outputs A m \<noteq> spec_outputs B m"
      using solver_soundD [OF sound Sat] by (simp add: satisfies_def ev)
    then show ?thesis
      using Sat l by (auto simp: check_circuit_equivalence_built [OF b1 b2])
  next
    case Unsat
    have "spec_outputs A m = spec_outputs B m" for m
    proof (rule ccontr)
      assume "spec_outputs A m \<noteq> spec_outputs B m"
      then have "satisfies m [miter o1 o2]" by (simp add: satisfies_def ev)
      from solver_completeD [OF complete this] Unsat show False by auto
    qed
    then show ?thesis
      using Unsat l by (auto simp: check_circuit_equivalence_built [OF b1 b2])
  next
    case Unknown
    have "spec_outputs A m = spec_outputs B m" for m
    proof (rule ccontr)
      assume "spec_outputs A m \<noteq> spec_outputs B m"
      then have "satisfies m [miter o1 o2]" by (simp add: satisfies_def ev)
      from solver_completeD [OF complete this] Unknown show False by auto
    qed
    then show ?thesis
      using Unknown l by (auto simp: check_circuit_equivalence_built [OF b1 b2])
  qed
qed

text \<open>
  An instance: \<open>(A AND B) OR C\<close> against \<open>(A OR C) AND (B OR C)\<close>. The verdict is
  Equivalent, and so the two circuits agree under every assignment.
\<close>

lemma check_circuit_equivalence_decides_instance:
  "solver_sound enum_solver \<and> solver_complete enum_solver \<and>
   structurally_valid and_or_circuit \<and> structurally_valid or_and_circuit \<and>
   distinct (outputs and_or_circuit) \<and> distinct (outputs or_and_circuit) \<and>
   length (outputs and_or_circuit) = length (outputs or_and_circuit) \<and>
   fst (check_circuit_equivalence enum_solver and_or_circuit or_and_circuit) = Inr (True, None) \<and>
   (\<forall>env. spec_outputs and_or_circuit env = spec_outputs or_and_circuit env)"
proof -
  have v1: "structurally_valid and_or_circuit"
    by (simp add: run_defs and_or_circuit_def or_and_circuit_def)
  have v2: "structurally_valid or_and_circuit"
    by (simp add: run_defs and_or_circuit_def or_and_circuit_def)
  have d1: "distinct (outputs and_or_circuit)" and d2: "distinct (outputs or_and_circuit)"
    and l: "length (outputs and_or_circuit) = length (outputs or_and_circuit)"
    by (simp_all add: and_or_circuit_def or_and_circuit_def)
  have r: "fst (check_circuit_equivalence enum_solver and_or_circuit or_and_circuit) =
      Inr (True, None)"
    by (simp add: run_defs and_or_circuit_def or_and_circuit_def)
  from check_circuit_equivalence_decides
    [OF enum_solver_sound enum_solver_complete v1 v2 d1 d2 l] r
  have "\<forall>env. spec_outputs and_or_circuit env = spec_outputs or_and_circuit env"
    by blast
  with enum_solver_sound enum_solver_complete v1 v2 d1 d2 l r show ?thesis
    by blast
qed

text \<open>
  For every pair of structurally valid circuits whose outputs lists repeat no name and
  differ in length, \<open>check_circuit_equivalence\<close> returns NotEquivalent with no
  counterexample, and its log of solver queries is empty, whatever the solver.
\<close>

lemma output_count_mismatch:
  assumes A: "structurally_valid A" and B: "structurally_valid B"
    and dA: "distinct (outputs A)" and dB: "distinct (outputs B)"
    and len: "length (outputs A) \<noteq> length (outputs B)"
  shows "check_circuit_equivalence check A B = (Inr (False, None), [])"
proof -
  from A B obtain o1 zv1 o2 zv2 where b1: "ce_build_z3_expr A [] = Inr (o1, zv1)"
    and b2: "ce_build_z3_expr B zv1 = Inr (o2, zv2)"
    by (rule structurally_valid_built)
  have "length o1 \<noteq> length o2"
    using ce_build_z3_expr_length [OF b1] ce_build_z3_expr_length [OF b2] dA dB len
    by (simp add: distinct_card)
  then show ?thesis
    by (simp add: check_circuit_equivalence_built [OF b1 b2])
qed

text \<open>An instance: the circuits of the test of different numbers of outputs.\<close>

lemma output_count_mismatch_instance:
  "structurally_valid one_output_circuit \<and> structurally_valid two_outputs_circuit \<and>
   distinct (outputs one_output_circuit) \<and> distinct (outputs two_outputs_circuit) \<and>
   length (outputs one_output_circuit) \<noteq> length (outputs two_outputs_circuit) \<and>
   check_circuit_equivalence enum_solver one_output_circuit two_outputs_circuit =
     (Inr (False, None), [])"
proof -
  have v1: "structurally_valid one_output_circuit"
    by (simp add: run_defs one_output_circuit_def two_outputs_circuit_def)
  have v2: "structurally_valid two_outputs_circuit"
    by (simp add: run_defs one_output_circuit_def two_outputs_circuit_def)
  have d1: "distinct (outputs one_output_circuit)"
    and d2: "distinct (outputs two_outputs_circuit)"
    and l: "length (outputs one_output_circuit) \<noteq> length (outputs two_outputs_circuit)"
    by (simp_all add: one_output_circuit_def two_outputs_circuit_def)
  show ?thesis
    using output_count_mismatch [OF v1 v2 d1 d2 l, of enum_solver] v1 v2 d1 d2 l by blast
qed

text \<open>
  Whenever \<open>check_circuit_equivalence\<close> returns NotEquivalent with a counterexample for
  two circuits whose outputs lists repeat no name, and the solver is sound, the model
  that the solver returned for the miter is such that the reported list holds exactly the
  positional output pairs whose two compiled expressions evaluate to different truth
  values under it, in order and with the two values, and the list is not empty.
\<close>

lemma differing_outputs_exact:
  assumes sound: "solver_sound check"
    and b1: "ce_build_z3_expr A [] = Inr (o1, zv1)"
    and b2: "ce_build_z3_expr B zv1 = Inr (o2, zv2)"
    and dA: "distinct (outputs A)" and dB: "distinct (outputs B)"
    and res: "check_circuit_equivalence check A B = (Inr (False, Some (ia, ds)), q)"
  shows "\<exists>model. check [miter o1 o2] = Sat model \<and> q = [[miter o1 o2]] \<and>
           keys o1 = outputs A \<and> keys o2 = outputs B \<and>
           ds = map (\<lambda>(x, y). (fst x, fst y, evaluate model (snd x), evaluate model (snd y)))
                  (filter (\<lambda>(x, y). evaluate model (snd x) \<noteq> evaluate model (snd y))
                     (zip o1 o2)) \<and>
           ds \<noteq> []"
proof -
  from res obtain model where m: "check [miter o1 o2] = Sat model"
    and q: "q = [[miter o1 o2]]" and ds: "ds = differing model o1 o2"
    by (auto simp: check_circuit_equivalence_built [OF b1 b2]
        split: if_splits check_result.splits)
  have "evaluate model (miter o1 o2)"
    using solver_soundD [OF sound m] by (simp add: satisfies_def)
  then have "filter (\<lambda>(x, y). evaluate model (snd x) \<noteq> evaluate model (snd y)) (zip o1 o2) \<noteq> []"
    by (simp add: miter_def list_ex_iff filter_empty_conv split_beta)
  then have "ds \<noteq> []" by (simp add: ds differing_def)
  moreover have "keys o1 = outputs A" "keys o2 = outputs B"
    using ce_build_z3_expr_keys [OF b1] ce_build_z3_expr_keys [OF b2] dA dB
    by (simp_all add: first_occurrences_distinct)
  ultimately show ?thesis
    using m q ds by (auto simp: differing_def)
qed

text \<open>
  An instance: two outputs, of which the first pair agrees under every assignment. Only
  the second pair is reported.
\<close>

lemma differing_outputs_exact_instance:
  "solver_sound enum_solver \<and>
   ce_build_z3_expr two_outputs_circuit [] =
     Inr ([(''C'', Z3And [Z3Bool ''A'', Z3Bool ''B'']), (''D'', Z3Or [Z3Bool ''A'', Z3Bool ''B''])],
          [(''A'', Z3Bool ''A''), (''B'', Z3Bool ''B'')]) \<and>
   ce_build_z3_expr two_ands_circuit [(''A'', Z3Bool ''A''), (''B'', Z3Bool ''B'')] =
     Inr ([(''C'', Z3And [Z3Bool ''A'', Z3Bool ''B'']), (''D'', Z3And [Z3Bool ''A'', Z3Bool ''B''])],
          [(''A'', Z3Bool ''A''), (''B'', Z3Bool ''B'')]) \<and>
   distinct (outputs two_outputs_circuit) \<and> distinct (outputs two_ands_circuit) \<and>
   check_circuit_equivalence enum_solver two_outputs_circuit two_ands_circuit =
     (Inr (False, Some ([(''A'', False), (''B'', True)], [(''D'', ''D'', True, False)])),
      [[Z3Or [Z3Ne (Z3And [Z3Bool ''A'', Z3Bool ''B'']) (Z3And [Z3Bool ''A'', Z3Bool ''B'']),
              Z3Ne (Z3Or [Z3Bool ''A'', Z3Bool ''B'']) (Z3And [Z3Bool ''A'', Z3Bool ''B''])]]]) \<and>
   (\<exists>model. enum_solver [miter [(''C'', Z3And [Z3Bool ''A'', Z3Bool ''B'']), (''D'', Z3Or [Z3Bool ''A'', Z3Bool ''B''])]
          [(''C'', Z3And [Z3Bool ''A'', Z3Bool ''B'']), (''D'', Z3And [Z3Bool ''A'', Z3Bool ''B''])]] = Sat model \<and>
      [[Z3Or [Z3Ne (Z3And [Z3Bool ''A'', Z3Bool ''B'']) (Z3And [Z3Bool ''A'', Z3Bool ''B'']),
              Z3Ne (Z3Or [Z3Bool ''A'', Z3Bool ''B'']) (Z3And [Z3Bool ''A'', Z3Bool ''B''])]]] =
      [[miter [(''C'', Z3And [Z3Bool ''A'', Z3Bool ''B'']), (''D'', Z3Or [Z3Bool ''A'', Z3Bool ''B''])]
          [(''C'', Z3And [Z3Bool ''A'', Z3Bool ''B'']), (''D'', Z3And [Z3Bool ''A'', Z3Bool ''B''])]]] \<and>
      keys [(''C'', Z3And [Z3Bool ''A'', Z3Bool ''B'']), (''D'', Z3Or [Z3Bool ''A'', Z3Bool ''B''])] = outputs two_outputs_circuit \<and>
      keys [(''C'', Z3And [Z3Bool ''A'', Z3Bool ''B'']), (''D'', Z3And [Z3Bool ''A'', Z3Bool ''B''])] = outputs two_ands_circuit \<and>
      [(''D'', ''D'', True, False)] =
        map (\<lambda>(x, y). (fst x, fst y, evaluate model (snd x), evaluate model (snd y)))
          (filter (\<lambda>(x, y). evaluate model (snd x) \<noteq> evaluate model (snd y))
             (zip [(''C'', Z3And [Z3Bool ''A'', Z3Bool ''B'']), (''D'', Z3Or [Z3Bool ''A'', Z3Bool ''B''])]
                [(''C'', Z3And [Z3Bool ''A'', Z3Bool ''B'']), (''D'', Z3And [Z3Bool ''A'', Z3Bool ''B''])])) \<and>
      [(''D'', ''D'', True, False)] \<noteq> [])"
proof -
  have b1: "ce_build_z3_expr two_outputs_circuit [] =
     Inr ([(''C'', Z3And [Z3Bool ''A'', Z3Bool ''B'']), (''D'', Z3Or [Z3Bool ''A'', Z3Bool ''B''])],
          [(''A'', Z3Bool ''A''), (''B'', Z3Bool ''B'')])"
    by (simp add: run_defs two_outputs_circuit_def two_ands_circuit_def)
  have b2: "ce_build_z3_expr two_ands_circuit [(''A'', Z3Bool ''A''), (''B'', Z3Bool ''B'')] =
     Inr ([(''C'', Z3And [Z3Bool ''A'', Z3Bool ''B'']), (''D'', Z3And [Z3Bool ''A'', Z3Bool ''B''])],
          [(''A'', Z3Bool ''A''), (''B'', Z3Bool ''B'')])"
    by (simp add: run_defs two_outputs_circuit_def two_ands_circuit_def)
  have d1: "distinct (outputs two_outputs_circuit)" and d2: "distinct (outputs two_ands_circuit)"
    by (simp_all add: two_outputs_circuit_def two_ands_circuit_def)
  have r: "check_circuit_equivalence enum_solver two_outputs_circuit two_ands_circuit =
     (Inr (False, Some ([(''A'', False), (''B'', True)], [(''D'', ''D'', True, False)])),
      [[Z3Or [Z3Ne (Z3And [Z3Bool ''A'', Z3Bool ''B'']) (Z3And [Z3Bool ''A'', Z3Bool ''B'']),
              Z3Ne (Z3Or [Z3Bool ''A'', Z3Bool ''B'']) (Z3And [Z3Bool ''A'', Z3Bool ''B''])]]])"
    by (simp add: run_defs two_outputs_circuit_def two_ands_circuit_def)
  have c: "\<exists>model. enum_solver [miter [(''C'', Z3And [Z3Bool ''A'', Z3Bool ''B'']), (''D'', Z3Or [Z3Bool ''A'', Z3Bool ''B''])]
          [(''C'', Z3And [Z3Bool ''A'', Z3Bool ''B'']), (''D'', Z3And [Z3Bool ''A'', Z3Bool ''B''])]] = Sat model \<and>
      [[Z3Or [Z3Ne (Z3And [Z3Bool ''A'', Z3Bool ''B'']) (Z3And [Z3Bool ''A'', Z3Bool ''B'']),
              Z3Ne (Z3Or [Z3Bool ''A'', Z3Bool ''B'']) (Z3And [Z3Bool ''A'', Z3Bool ''B''])]]] =
      [[miter [(''C'', Z3And [Z3Bool ''A'', Z3Bool ''B'']), (''D'', Z3Or [Z3Bool ''A'', Z3Bool ''B''])]
          [(''C'', Z3And [Z3Bool ''A'', Z3Bool ''B'']), (''D'', Z3And [Z3Bool ''A'', Z3Bool ''B''])]]] \<and>
      keys [(''C'', Z3And [Z3Bool ''A'', Z3Bool ''B'']), (''D'', Z3Or [Z3Bool ''A'', Z3Bool ''B''])] = outputs two_outputs_circuit \<and>
      keys [(''C'', Z3And [Z3Bool ''A'', Z3Bool ''B'']), (''D'', Z3And [Z3Bool ''A'', Z3Bool ''B''])] = outputs two_ands_circuit \<and>
      [(''D'', ''D'', True, False)] =
        map (\<lambda>(x, y). (fst x, fst y, evaluate model (snd x), evaluate model (snd y)))
          (filter (\<lambda>(x, y). evaluate model (snd x) \<noteq> evaluate model (snd y))
             (zip [(''C'', Z3And [Z3Bool ''A'', Z3Bool ''B'']), (''D'', Z3Or [Z3Bool ''A'', Z3Bool ''B''])]
                [(''C'', Z3And [Z3Bool ''A'', Z3Bool ''B'']), (''D'', Z3And [Z3Bool ''A'', Z3Bool ''B''])])) \<and>
      [(''D'', ''D'', True, False)] \<noteq> []"
    by (rule differing_outputs_exact [OF enum_solver_sound b1 b2 d1 d2 r])
  show ?thesis
    by (intro conjI) (rule enum_solver_sound b1 b2 d1 d2 r c)+
qed

subsection \<open>Outputs lists that repeat a name\<close>

text \<open>
  \<^verbatim>\<open>build_z3_expr\<close> returns the outputs in a dictionary keyed by name, so a name that
  the outputs list repeats is held once, at its first position. The comments of
  \<^verbatim>\<open>check_circuit_equivalence\<close> say that it checks that both circuits have the same
  number of outputs and that the outputs correspond by order; on an outputs list that
  repeats a name it does neither. The three claims below are right about what the check
  has to do, and the code fails them at the inputs shown, all three by this one defect.
\<close>

text \<open>
  C1. For structurally valid circuits with equal output counts the check has to report
  NotEquivalent exactly when some assignment makes a positional output pair differ. The
  code does not: the outputs \<open>a, b, a\<close> and \<open>a, b, b\<close> of two circuits without gates have
  equal counts and differ at the third position under the assignment that makes \<open>a\<close>
  true and \<open>b\<close> false, and the call returns Equivalent. Its one query compares \<open>a\<close> with
  \<open>a\<close> and \<open>b\<close> with \<open>b\<close>, which no model satisfies; the third pair is never compared.
\<close>

theorem check_circuit_equivalence_repeated_outputs:
  "structurally_valid outputs_aba \<and> structurally_valid outputs_abb \<and>
   length (outputs outputs_aba) = length (outputs outputs_abb) \<and>
   (outputs outputs_aba ! 2, outputs outputs_abb ! 2) = (''a'', ''b'') \<and>
   spec_outputs outputs_aba (\<lambda>x. x = ''a'') \<noteq> spec_outputs outputs_abb (\<lambda>x. x = ''a'') \<and>
   check_circuit_equivalence enum_solver outputs_aba outputs_abb =
     (Inr (True, None),
      [[Z3Or [Z3Ne (Z3Bool ''a'') (Z3Bool ''a''), Z3Ne (Z3Bool ''b'') (Z3Bool ''b'')]]]) \<and>
   (\<forall>model. \<not> evaluate model
      (Z3Or [Z3Ne (Z3Bool ''a'') (Z3Bool ''a''), Z3Ne (Z3Bool ''b'') (Z3Bool ''b'')]))"
  by (simp add: run_defs spec_outputs_def outputs_aba_def outputs_abb_def)

text \<open>
  C2. For circuits whose output counts differ the check has to return NotEquivalent with
  no counterexample and without a solver query. The code does not: the outputs \<open>a, a\<close>
  against the output \<open>a\<close> differ in count, two against one, and the call queries the
  solver with the one pair \<open>(a, a)\<close> and returns Equivalent.
\<close>

theorem output_count_mismatch_not_detected:
  "structurally_valid outputs_aa \<and> structurally_valid outputs_a \<and>
   length (outputs outputs_aa) = 2 \<and> length (outputs outputs_a) = 1 \<and>
   check_circuit_equivalence enum_solver outputs_aa outputs_a =
     (Inr (True, None), [[Z3Or [Z3Ne (Z3Bool ''a'') (Z3Bool ''a'')]]]) \<and>
   (\<forall>model. \<not> evaluate model (Z3Or [Z3Ne (Z3Bool ''a'') (Z3Bool ''a'')]))"
  by (simp add: run_defs outputs_aa_def outputs_a_def)

text \<open>
  C3. The reported list has to hold exactly the positional output pairs whose compiled
  expressions evaluate to different truth values under the witnessing model. The code
  does not: with the outputs \<open>a, q, q\<close> against \<open>n, s, n\<close>, where \<open>q\<close> and \<open>s\<close> are AND of
  \<open>a\<close> alone and \<open>n\<close> is NOT \<open>a\<close>, the pairs examined are \<open>(a, n)\<close> and \<open>(q, s)\<close>. The
  third positional pair \<open>(q, n)\<close> evaluates to different truth values under every model,
  and it is not reported.
\<close>

theorem differing_outputs_repeated_outputs:
  "structurally_valid outputs_aqq \<and> structurally_valid outputs_nsn \<and>
   check_circuit_equivalence enum_solver outputs_aqq outputs_nsn =
     (Inr (False, Some ([(''a'', False)], [(''a'', ''n'', False, True)])),
      [[Z3Or [Z3Ne (Z3Bool ''a'') (Z3Not (Z3Bool ''a'')),
              Z3Ne (Z3And [Z3Bool ''a'']) (Z3And [Z3Bool ''a''])]]]) \<and>
   (outputs outputs_aqq ! 2, outputs outputs_nsn ! 2) = (''q'', ''n'') \<and>
   ce_build_z3_expr outputs_aqq [] =
     Inr ([(''a'', Z3Bool ''a''), (''q'', Z3And [Z3Bool ''a''])], [(''a'', Z3Bool ''a'')]) \<and>
   ce_build_z3_expr outputs_nsn [(''a'', Z3Bool ''a'')] =
     Inr ([(''n'', Z3Not (Z3Bool ''a'')), (''s'', Z3And [Z3Bool ''a''])],
          [(''a'', Z3Bool ''a'')]) \<and>
   (\<forall>model. evaluate model (Z3And [Z3Bool ''a'']) \<noteq> evaluate model (Z3Not (Z3Bool ''a'')))"
  by (simp add: run_defs outputs_aqq_def outputs_nsn_def)

subsection \<open>Reflexivity, the output dictionaries and the counterexample\<close>

text \<open>
  C6. For every structurally valid circuit C and every sound solver,
  \<open>check_circuit_equivalence\<close> of C with itself returns Equivalent.
\<close>

theorem check_circuit_equivalence_reflexive:
  assumes sound: "solver_sound check" and C: "structurally_valid C"
  shows "fst (check_circuit_equivalence check C C) = Inr (True, None)"
proof -
  from C obtain o1 zv1 where b1: "ce_build_z3_expr C [] = Inr (o1, zv1)"
    by (auto simp: structurally_valid_def split: sum.splits)
  have "bool_vars zv1" by (rule ce_build_z3_expr_vars(1) [OF b1 bool_vars_empty])
  from ce_build_z3_expr_any_vars [OF this, of C] b1
  obtain zv2 where b2: "ce_build_z3_expr C zv1 = Inr (o1, zv2)"
    by (cases "ce_build_z3_expr C zv1") auto
  have "check [miter o1 o1] \<noteq> Sat m" for m
    using solver_soundD [OF sound, of "[miter o1 o1]" m] miter_self_unsat [of m o1]
    by (auto simp: satisfies_def)
  then show ?thesis
    by (simp add: check_circuit_equivalence_built [OF b1 b2] split: check_result.splits)
qed

text \<open>An instance of C6: the circuit of the demonstration, \<open>(A AND B) OR C\<close>.\<close>

theorem check_circuit_equivalence_reflexive_witness:
  "solver_sound enum_solver \<and> structurally_valid and_or_circuit \<and>
   fst (check_circuit_equivalence enum_solver and_or_circuit and_or_circuit) = Inr (True, None)"
proof -
  have v: "structurally_valid and_or_circuit"
    by (simp add: run_defs and_or_circuit_def)
  show ?thesis
    using check_circuit_equivalence_reflexive [OF enum_solver_sound v] enum_solver_sound v
    by blast
qed

text \<open>
  C9. Once both circuits are compiled, the keys of each output dictionary are the names
  of the outputs list at their first occurrences, so a repeated name is held once. The
  count that the mismatch check compares is the number of distinct output names, and the
  pairs of the miter are the positional pairs of the two lists of distinct names, not of
  the outputs lists as written: when the counts of distinct names differ the call returns
  NotEquivalent without a query, and otherwise its one query is the miter over these pairs.
\<close>

theorem outputs_collapse:
  assumes b1: "ce_build_z3_expr A [] = Inr (o1, zv1)"
    and b2: "ce_build_z3_expr B zv1 = Inr (o2, zv2)"
  shows "keys o1 = first_occurrences (outputs A) \<and> keys o2 = first_occurrences (outputs B) \<and>
         length o1 = card (set (outputs A)) \<and> length o2 = card (set (outputs B)) \<and>
         output_pairs o1 o2 = zip (first_occurrences (outputs A)) (first_occurrences (outputs B)) \<and>
         (if card (set (outputs A)) \<noteq> card (set (outputs B))
          then check_circuit_equivalence check A B = (Inr (False, None), [])
          else snd (check_circuit_equivalence check A B) = [[miter o1 o2]])"
  using ce_build_z3_expr_keys [OF b1] ce_build_z3_expr_keys [OF b2]
    ce_build_z3_expr_length [OF b1] ce_build_z3_expr_length [OF b2]
  by (auto simp: check_circuit_equivalence_built [OF b1 b2] output_pairs_def
      split: check_result.splits)

text \<open>
  An instance of C9: the outputs \<open>a, b, a\<close> against \<open>a, b, b\<close>. Each dictionary holds
  \<open>a\<close> and \<open>b\<close>, and the miter compares \<open>a\<close> with \<open>a\<close> and \<open>b\<close> with \<open>b\<close>.
\<close>

theorem outputs_collapse_witness:
  "ce_build_z3_expr outputs_aba [] =
     Inr ([(''a'', Z3Bool ''a''), (''b'', Z3Bool ''b'')],
          [(''a'', Z3Bool ''a''), (''b'', Z3Bool ''b'')]) \<and>
   ce_build_z3_expr outputs_abb [(''a'', Z3Bool ''a''), (''b'', Z3Bool ''b'')] =
     Inr ([(''a'', Z3Bool ''a''), (''b'', Z3Bool ''b'')],
          [(''a'', Z3Bool ''a''), (''b'', Z3Bool ''b'')]) \<and>
   outputs outputs_aba = [''a'', ''b'', ''a''] \<and> outputs outputs_abb = [''a'', ''b'', ''b''] \<and>
   output_pairs [(''a'', Z3Bool ''a''), (''b'', Z3Bool ''b'')]
     [(''a'', Z3Bool ''a''), (''b'', Z3Bool ''b'')] = [(''a'', ''a''), (''b'', ''b'')] \<and>
   snd (check_circuit_equivalence enum_solver outputs_aba outputs_abb) =
     [[Z3Or [Z3Ne (Z3Bool ''a'') (Z3Bool ''a''), Z3Ne (Z3Bool ''b'') (Z3Bool ''b'')]]]"
proof -
  have b1: "ce_build_z3_expr outputs_aba [] =
     Inr ([(''a'', Z3Bool ''a''), (''b'', Z3Bool ''b'')],
          [(''a'', Z3Bool ''a''), (''b'', Z3Bool ''b'')])"
    by (simp add: run_defs outputs_aba_def outputs_abb_def)
  have b2: "ce_build_z3_expr outputs_abb [(''a'', Z3Bool ''a''), (''b'', Z3Bool ''b'')] =
     Inr ([(''a'', Z3Bool ''a''), (''b'', Z3Bool ''b'')],
          [(''a'', Z3Bool ''a''), (''b'', Z3Bool ''b'')])"
    by (simp add: run_defs outputs_aba_def outputs_abb_def)
  have o: "outputs outputs_aba = [''a'', ''b'', ''a'']" "outputs outputs_abb = [''a'', ''b'', ''b'']"
    by (simp_all add: outputs_aba_def outputs_abb_def)
  from outputs_collapse [OF b1 b2, of enum_solver] b1 b2 o show ?thesis
    by (simp add: miter_def)
qed

text \<open>
  C10. Whenever \<open>check_circuit_equivalence\<close> returns a counterexample, the keys of its
  input assignment are the inputs of the first circuit, at their first occurrences; an
  input that only the second circuit declares is not among them.
\<close>

theorem counterexample_inputs_of_first_circuit:
  assumes res: "check_circuit_equivalence check A B = (Inr (False, Some (ia, ds)), q)"
  shows "keys ia = first_occurrences (inputs A) \<and>
         set (keys ia) \<inter> (set (inputs B) - set (inputs A)) = {}"
proof -
  from res have "fst (check_circuit_equivalence check A B) = Inr (False, Some (ia, ds))"
    by simp
  then obtain o1 zv1 o2 zv2 where b1: "ce_build_z3_expr A [] = Inr (o1, zv1)"
    and b2: "ce_build_z3_expr B zv1 = Inr (o2, zv2)"
    by (rule check_circuit_equivalence_returns)
  have bv: "bool_vars zv1"
    by (rule ce_build_z3_expr_vars(1) [OF b1 bool_vars_empty])
  have "set (inputs A) \<subseteq> dom (map_of zv2)"
    using ce_build_z3_expr_vars(2) [OF b1 bool_vars_empty] ce_build_z3_expr_vars(2) [OF b2 bv]
    by auto
  then have defined: "\<forall>x \<in> set (inputs A). map_of zv2 x \<noteq> None" by auto
  from res obtain model where "ia = input_assignment model zv2 (inputs A) []"
    by (auto simp: check_circuit_equivalence_built [OF b1 b2]
        split: if_splits check_result.splits)
  then have "keys ia = first_occurrences (inputs A)"
    using input_assignment_keys [OF defined, of model "[]"] by (simp add: keys_def)
  then show ?thesis
    by (auto simp: set_first_occurrences)
qed

text \<open>
  An instance of C10: the input \<open>a\<close> against the XOR of \<open>a\<close> and \<open>b\<close>. The variable \<open>b\<close>
  occurs in the miter, the model makes it true, and the counterexample holds \<open>a\<close> alone.
\<close>

theorem counterexample_inputs_of_first_circuit_witness:
  "check_circuit_equivalence enum_solver outputs_a xor_circuit =
     (Inr (False, Some ([(''a'', False)], [(''a'', ''g'', False, True)])),
      [[Z3Or [Z3Ne (Z3Bool ''a'') (Z3Xor (Z3Bool ''a'') (Z3Bool ''b''))]]]) \<and>
   keys [(''a'', False)] = first_occurrences (inputs outputs_a) \<and>
   set (keys [(''a'', False)]) \<inter> (set (inputs xor_circuit) - set (inputs outputs_a)) = {} \<and>
   ''b'' \<in> set (vars_of (Z3Or [Z3Ne (Z3Bool ''a'') (Z3Xor (Z3Bool ''a'') (Z3Bool ''b''))]))"
proof -
  have r: "check_circuit_equivalence enum_solver outputs_a xor_circuit =
     (Inr (False, Some ([(''a'', False)], [(''a'', ''g'', False, True)])),
      [[Z3Or [Z3Ne (Z3Bool ''a'') (Z3Xor (Z3Bool ''a'') (Z3Bool ''b''))]]])"
    by (simp add: run_defs outputs_a_def xor_circuit_def)
  have "''b'' \<in> set (vars_of (Z3Or [Z3Ne (Z3Bool ''a'') (Z3Xor (Z3Bool ''a'') (Z3Bool ''b''))]))"
    by simp
  with counterexample_inputs_of_first_circuit [OF r] r show ?thesis by blast
qed

section \<open>Structural errors\<close>

text \<open>
  C4 (as amended). For every circuit containing two gates with the same name, the
  single-circuit validation returns the failure result \<open>(False, message)\<close> with the
  message of a structural error to its caller, and the equivalence check, with the
  circuit as either argument, exits with \<^verbatim>\<open>sys.exit(1)\<close> before any solver query.
\<close>

theorem duplicate_gate_name_flows:
  assumes "\<not> distinct (map gname (gates c))"
  shows "(\<exists>e. validate_circuit check c ia sa = Inr (False, Msg (StructuralMsg e))) \<and>
         check_circuit_equivalence check c other = (Inl (SystemExit 1), []) \<and>
         check_circuit_equivalence check other c = (Inl (SystemExit 1), [])"
proof -
  from assms have "\<not> well_formed c" using well_formed_distinct by blast
  then have "\<not> (\<exists>r. cv_build_z3_expr c [] = Inr r)"
    using cv_build_z3_expr_succeeds [of c "[]"] by blast
  then obtain e where "cv_build_z3_expr c [] = Inl e"
    by (cases "cv_build_z3_expr c []") auto
  then have "validate_circuit check c ia sa = Inr (False, Msg (StructuralMsg e))"
    by (simp add: validate_circuit_def)
  with duplicate_gate_exits [OF assms] show ?thesis by blast
qed

text \<open>An instance of C4: the circuit of the test of duplicate gate names.\<close>

theorem duplicate_gate_name_flows_witness:
  "\<not> distinct (map gname (gates duplicate_gate_circuit)) \<and>
   validate_circuit enum_solver duplicate_gate_circuit [(''A'', True), (''B'', True)] None =
     Inr (False, Msg (StructuralMsg (DuplicateGateName ''C''))) \<and>
   check_circuit_equivalence enum_solver duplicate_gate_circuit one_output_circuit =
     (Inl (SystemExit 1), []) \<and>
   check_circuit_equivalence enum_solver one_output_circuit duplicate_gate_circuit =
     (Inl (SystemExit 1), [])"
proof -
  have d: "\<not> distinct (map gname (gates duplicate_gate_circuit))"
    by (simp add: one_output_circuit_def duplicate_gate_circuit_def)
  have v: "validate_circuit enum_solver duplicate_gate_circuit [(''A'', True), (''B'', True)] None =
     Inr (False, Msg (StructuralMsg (DuplicateGateName ''C'')))"
    by (simp add: run_defs one_output_circuit_def duplicate_gate_circuit_def)
  from duplicate_gate_name_flows [OF d, of enum_solver _ _ one_output_circuit] d v
  show ?thesis by blast
qed

text \<open>
  C4 as stated fails for the equivalence check: on the circuit of the test of duplicate
  gate names it raises \<^verbatim>\<open>SystemExit\<close> with status 1 and returns no result.
\<close>

theorem duplicate_gate_name_exits:
  "\<not> distinct (map gname (gates duplicate_gate_circuit)) \<and>
   check_circuit_equivalence enum_solver duplicate_gate_circuit one_output_circuit =
     (Inl (SystemExit 1), [])"
  by (simp add: run_defs one_output_circuit_def duplicate_gate_circuit_def)

text \<open>
  C5 (as amended). Both compilers accept a circuit exactly when it is well formed: the
  gate names are pairwise distinct, every gate input is a primary input or an earlier
  gate, every gate has a supported type with the number of inputs it requires, and every
  output is a primary input or a gate. So every circuit in which two gates share a name
  is rejected with a structural error, and a gate whose name equals a primary input's
  name is not a ground for rejection.
\<close>

theorem compilation_accepts_well_formed:
  "((\<exists>r. ce_build_z3_expr c zv = Inr r) \<longleftrightarrow> well_formed c) \<and>
   ((\<exists>r. cv_build_z3_expr c zv = Inr r) \<longleftrightarrow> well_formed c) \<and>
   (\<not> distinct (map gname (gates c)) \<longrightarrow>
      (\<exists>e. ce_build_z3_expr c zv = Inl e) \<and> (\<exists>e. cv_build_z3_expr c zv = Inl e))"
proof -
  have "(\<exists>e. ce_build_z3_expr c zv = Inl e) \<and> (\<exists>e. cv_build_z3_expr c zv = Inl e)"
    if "\<not> distinct (map gname (gates c))"
  proof -
    from that have "\<not> well_formed c" using well_formed_distinct by blast
    then have "\<not> (\<exists>r. ce_build_z3_expr c zv = Inr r)" "\<not> (\<exists>r. cv_build_z3_expr c zv = Inr r)"
      using ce_build_z3_expr_succeeds [of c zv] cv_build_z3_expr_succeeds [of c zv] by blast+
    then show ?thesis
      by (cases "ce_build_z3_expr c zv"; cases "cv_build_z3_expr c zv") blast+
  qed
  then show ?thesis
    using ce_build_z3_expr_succeeds [of c zv] cv_build_z3_expr_succeeds [of c zv] by blast
qed

text \<open>
  An instance of C5: the circuit of the test of duplicate gate names is rejected, and a
  circuit whose only gate is named like its input is well formed and accepted.
\<close>

theorem compilation_accepts_well_formed_witness:
  "\<not> distinct (map gname (gates duplicate_gate_circuit)) \<and>
   ce_build_z3_expr duplicate_gate_circuit [] = Inl (DuplicateGateName ''C'') \<and>
   cv_build_z3_expr duplicate_gate_circuit [] = Inl (DuplicateGateName ''C'') \<and>
   well_formed shadow_circuit \<and>
   (\<exists>r. ce_build_z3_expr shadow_circuit [] = Inr r) \<and>
   (\<exists>r. cv_build_z3_expr shadow_circuit [] = Inr r)"
proof -
  have d: "\<not> distinct (map gname (gates duplicate_gate_circuit))"
    by (simp add: duplicate_gate_circuit_def shadow_circuit_def)
  have e: "ce_build_z3_expr duplicate_gate_circuit [] = Inl (DuplicateGateName ''C'')"
    "cv_build_z3_expr duplicate_gate_circuit [] = Inl (DuplicateGateName ''C'')"
    by (simp_all add: run_defs duplicate_gate_circuit_def shadow_circuit_def)
  have w: "well_formed shadow_circuit"
    by (simp add: well_formed_def shadow_circuit_def type_arity_ok_def upper_def upper_char_def)
  from compilation_accepts_well_formed [of shadow_circuit "[]"] w d e show ?thesis by blast
qed

text \<open>
  C5 as stated fails: the circuit with the input \<open>A\<close> and the gate \<open>A\<close>, the negation of
  the input \<open>A\<close>, compiles in both modes. In the equivalence checker the output \<open>A\<close> is the
  gate; in the validator the gate shares the variable of the input.
\<close>

theorem shadowing_gate_is_compiled:
  "''A'' \<in> set (inputs shadow_circuit) \<and> ''A'' \<in> gname ` set (gates shadow_circuit) \<and>
   ce_build_z3_expr shadow_circuit [] =
     Inr ([(''A'', Z3Not (Z3Bool ''A''))], [(''A'', Z3Bool ''A'')]) \<and>
   cv_build_z3_expr shadow_circuit [] =
     Inr ([(''A'', Z3Bool ''A'')], [Z3Eq (Z3Bool ''A'') (Z3Not (Z3Bool ''A''))],
          [(''A'', Z3Bool ''A'')])"
  by (simp add: run_defs shadow_circuit_def)

section \<open>Single-circuit validation\<close>

text \<open>
  C7 (as amended). For every circuit with an empty gate list whose outputs all name
  primary inputs, every input assignment whose keys are exactly the inputs of the
  circuit, and a solver that is sound and complete, \<open>validate_circuit\<close> returns \<open>(True, values)\<close>, where the values hold
  every output name once and give each output the value assigned to the input of that
  name.
\<close>

theorem no_gates_outputs_are_inputs:
  assumes sound: "solver_sound check" and complete: "solver_complete check"
    and no_gates: "gates c = []"
    and outs_in: "set (outputs c) \<subseteq> set (inputs c)"
    and dist: "distinct (keys ia)"
    and cover: "set (keys ia) = set (inputs c)"
  shows "\<exists>ov. validate_circuit check c ia None = Inr (True, OutputValues ov) \<and>
           keys ov = first_occurrences (outputs c) \<and>
           (\<forall>out \<in> set (outputs c). \<exists>v. map_of ia out = Some v \<and> map_of ov out = Some v)"
proof -
  have "well_formed c"
    using no_gates outs_in by (auto simp: well_formed_def)
  then obtain r where "cv_build_z3_expr c [] = Inr r"
    using cv_build_z3_expr_succeeds [of c "[]"] by blast
  then obtain outs cs zv where b: "cv_build_z3_expr c [] = Inr (outs, cs, zv)"
    by (cases r) auto
  have cs: "cs = []"
    using b no_gates by (auto simp: cv_build_z3_expr_def split: prod.splits sum.splits)
  note f = cv_build_z3_expr_facts [OF b]
  have em: "map_of outs out = Some (Z3Bool out)" if "out \<in> set (outputs c)" for out
  proof -
    from b no_gates obtain zv0 em0 where
      init: "init_inputs (inputs c) [] [] = (zv0, em0)" and
      mo: "map_outputs (outputs c) em0 [] = Inr outs"
      by (auto simp: cv_build_z3_expr_def split: prod.splits sum.splits)
    from that outs_in have "out \<in> set (inputs c)" by auto
    then have "map_of em0 out = Some (Z3Bool out)"
      using init_inputs_expr_map [OF init bool_vars_empty, of out] by simp
    then show ?thesis
      using map_outputs_lookup [OF mo, of out] that by simp
  qed
  have v: "validate_circuit check c ia None =
     (case check (literals ia) of
        Sat model \<Rightarrow>
          (case output_values model outs (outputs c) [] of
             Inl x \<Rightarrow> Inl x
           | Inr ov \<Rightarrow> Inr (True, OutputValues ov))
      | _ \<Rightarrow> Inr (False, Msg ContradictionMsg))"
    using validate_circuit_built [OF b, of ia None check] cover
    by (simp add: cs dict_or_empty_def literals_def keys_def)
  have "satisfies (\<lambda>k. case map_of ia k of None \<Rightarrow> False | Some v \<Rightarrow> v) (literals ia)"
    using agrees_map_of [OF dist] by (simp add: satisfies_literals)
  from solver_completeD [OF complete this]
  obtain m where m: "check (literals ia) = Sat m" by blast
  have ag: "agrees m ia"
    using solver_soundD [OF sound m] by (simp add: satisfies_literals)
  from output_values_result [OF f(3), of m "[]"]
  obtain ov where ov: "output_values m outs (outputs c) [] = Inr ov"
    and k: "keys ov = first_occurrences (outputs c)"
    and vals: "\<forall>x. map_of ov x =
        (if x \<in> set (outputs c) then map_option (evaluate m) (map_of outs x) else None)"
    by (auto simp: keys_def)
  have "\<exists>v. map_of ia out = Some v \<and> map_of ov out = Some v" if o: "out \<in> set (outputs c)" for out
  proof -
    from o outs_in cover have "out \<in> set (keys ia)" by auto
    then obtain v where v: "map_of ia out = Some v"
      by (auto simp: keys_def dest: weak_map_of_SomeI)
    from vals o em [OF o] have "map_of ov out = Some (m out)" by simp
    with agrees_lookup [OF ag v] v show ?thesis by simp
  qed
  with v m ov k show ?thesis by auto
qed

text \<open>An instance of C7: two inputs, wired to three outputs.\<close>

theorem no_gates_outputs_are_inputs_witness:
  "solver_sound enum_solver \<and> solver_complete enum_solver \<and> gates wires_circuit = [] \<and>
   set (outputs wires_circuit) \<subseteq> set (inputs wires_circuit) \<and>
   distinct (keys [(''A'', True), (''B'', False)]) \<and>
   set (keys [(''A'', True), (''B'', False)]) = set (inputs wires_circuit) \<and>
   validate_circuit enum_solver wires_circuit [(''A'', True), (''B'', False)] None =
     Inr (True, OutputValues [(''B'', False), (''A'', True)])"
proof -
  have g: "gates wires_circuit = []"
    and o: "set (outputs wires_circuit) \<subseteq> set (inputs wires_circuit)"
    and d: "distinct (keys [(''A'', True), (''B'', False)])"
    and c: "set (keys [(''A'', True), (''B'', False)]) = set (inputs wires_circuit)"
    by (auto simp: wires_circuit_def keys_def)
  from no_gates_outputs_are_inputs [OF enum_solver_sound enum_solver_complete g o d c]
  obtain ov where v: "validate_circuit enum_solver wires_circuit [(''A'', True), (''B'', False)] None
      = Inr (True, OutputValues ov)"
    and k: "keys ov = first_occurrences (outputs wires_circuit)"
    and vals: "\<forall>out \<in> set (outputs wires_circuit).
      \<exists>v. map_of [(''A'', True), (''B'', False)] out = Some v \<and> map_of ov out = Some v"
    by blast
  have "validate_circuit enum_solver wires_circuit [(''A'', True), (''B'', False)] None =
     Inr (True, OutputValues [(''B'', False), (''A'', True)])"
    by (simp add: run_defs wires_circuit_def)
  with v enum_solver_sound enum_solver_complete g o d c show ?thesis by blast
qed

text \<open>
  C7 as stated fails for an assignment that covers all inputs and has one more key: the
  validator rejects a key that is not an input of the circuit before it queries the
  solver, and returns the failure for that key and no output values.
\<close>

theorem no_gates_extra_key_rejected:
  "gates wires_circuit = [] \<and>
   set (outputs wires_circuit) \<subseteq> set (inputs wires_circuit) \<and>
   distinct (keys [(''A'', True), (''Z'', True), (''B'', False)]) \<and>
   set (inputs wires_circuit) \<subseteq> set (keys [(''A'', True), (''Z'', True), (''B'', False)]) \<and>
   validate_circuit enum_solver wires_circuit [(''A'', True), (''Z'', True), (''B'', False)] None =
     Inr (False, Msg (InputNotDefinedMsg ''Z''))"
  by (simp add: run_defs wires_circuit_def)

text \<open>
  C8. For every circuit that the validator's compiler accepts, every input assignment
  on names of inputs and every signal assignment on names of inputs and gates, and a
  sound solver: if no model satisfies the gate constraints and agrees with both
  assignments, \<open>validate_circuit\<close> returns \<open>(False, message)\<close> with the contradiction
  message. It returns, and the result carries no output values.
\<close>

theorem contradiction_reported:
  assumes sound: "solver_sound check"
    and b: "cv_build_z3_expr c [] = Inr (outs, cs, zv)"
    and ia: "set (keys ia) \<subseteq> set (inputs c)"
    and sa: "set (keys (dict_or_empty sa)) \<subseteq> set (inputs c) \<union> gname ` set (gates c)"
    and unsat: "\<not> (\<exists>m. satisfies m cs \<and> agrees m ia \<and> agrees m (dict_or_empty sa))"
  shows "validate_circuit check c ia sa = Inr (False, Msg ContradictionMsg)"
proof -
  have "check (cs @ literals ia @ literals (dict_or_empty sa)) \<noteq> Sat m" for m
  proof
    assume "check (cs @ literals ia @ literals (dict_or_empty sa)) = Sat m"
    from solver_soundD [OF sound this]
    have "satisfies m cs \<and> agrees m ia \<and> agrees m (dict_or_empty sa)"
      by (simp add: satisfies_append satisfies_literals)
    with unsat show False by blast
  qed
  then show ?thesis
    by (simp add: validate_circuit_built [OF b ia sa] split: check_result.splits)
qed

text \<open>
  An instance of C8: the second case of the demonstration, where \<open>E2\<close> is NOT \<open>A\<close> and
  both \<open>A\<close> and \<open>E2\<close> are forced to true.
\<close>

theorem contradiction_reported_witness:
  "solver_sound enum_solver \<and>
   cv_build_z3_expr not_circuit [] =
     Inr ([(''E'', Z3Bool ''E'')],
          [Z3Eq (Z3Bool ''E1'') (Z3And [Z3Bool ''A'', Z3Bool ''B'']),
           Z3Eq (Z3Bool ''E2'') (Z3Not (Z3Bool ''A'')),
           Z3Eq (Z3Bool ''E'') (Z3And [Z3Bool ''E1'', Z3Bool ''E2''])],
          [(''A'', Z3Bool ''A''), (''B'', Z3Bool ''B''), (''E1'', Z3Bool ''E1''),
           (''E2'', Z3Bool ''E2''), (''E'', Z3Bool ''E'')]) \<and>
   set (keys [(''A'', True), (''B'', True)]) \<subseteq> set (inputs not_circuit) \<and>
   set (keys (dict_or_empty (Some [(''E2'', True)]))) \<subseteq>
     set (inputs not_circuit) \<union> gname ` set (gates not_circuit) \<and>
   \<not> (\<exists>m.
      satisfies m [Z3Eq (Z3Bool ''E1'') (Z3And [Z3Bool ''A'', Z3Bool ''B'']),
           Z3Eq (Z3Bool ''E2'') (Z3Not (Z3Bool ''A'')),
           Z3Eq (Z3Bool ''E'') (Z3And [Z3Bool ''E1'', Z3Bool ''E2''])] \<and>
      agrees m [(''A'', True), (''B'', True)] \<and>
      agrees m (dict_or_empty (Some [(''E2'', True)]))) \<and>
   validate_circuit enum_solver not_circuit [(''A'', True), (''B'', True)]
     (Some [(''E2'', True)]) = Inr (False, Msg ContradictionMsg)"
proof -
  have b: "cv_build_z3_expr not_circuit [] =
     Inr ([(''E'', Z3Bool ''E'')],
          [Z3Eq (Z3Bool ''E1'') (Z3And [Z3Bool ''A'', Z3Bool ''B'']),
           Z3Eq (Z3Bool ''E2'') (Z3Not (Z3Bool ''A'')),
           Z3Eq (Z3Bool ''E'') (Z3And [Z3Bool ''E1'', Z3Bool ''E2''])],
          [(''A'', Z3Bool ''A''), (''B'', Z3Bool ''B''), (''E1'', Z3Bool ''E1''),
           (''E2'', Z3Bool ''E2''), (''E'', Z3Bool ''E'')])"
    by (simp add: run_defs not_circuit_def)
  have ia: "set (keys [(''A'', True), (''B'', True)]) \<subseteq> set (inputs not_circuit)"
    by (simp add: keys_def not_circuit_def)
  have sa: "set (keys (dict_or_empty (Some [(''E2'', True)]))) \<subseteq>
      set (inputs not_circuit) \<union> gname ` set (gates not_circuit)"
    by (simp add: keys_def dict_or_empty_def not_circuit_def)
  have unsat: "\<not> (\<exists>m.
      satisfies m [Z3Eq (Z3Bool ''E1'') (Z3And [Z3Bool ''A'', Z3Bool ''B'']),
           Z3Eq (Z3Bool ''E2'') (Z3Not (Z3Bool ''A'')),
           Z3Eq (Z3Bool ''E'') (Z3And [Z3Bool ''E1'', Z3Bool ''E2''])] \<and>
      agrees m [(''A'', True), (''B'', True)] \<and>
      agrees m (dict_or_empty (Some [(''E2'', True)])))"
    by (auto simp: satisfies_def agrees_def dict_or_empty_def)
  from contradiction_reported [OF enum_solver_sound b ia sa unsat] b ia sa unsat
    enum_solver_sound
  show ?thesis by blast
qed

end
